theory Spec2Isabelle
  imports Main
begin

section \<open>JavaScript values\<close>

text \<open>
  The imposter of \<^verbatim>\<open>src/models/imposter.js\<close> works on parsed JSON: creation
  requests, command line options, inbound requests, stubs and responses. A value is
  a \<open>json\<close>; a property that is not there reads as \<open>None\<close> (JavaScript's
  \<^verbatim>\<open>undefined\<close>). Numbers are the integral ones (ports and counters). An
  object is the list of its properties in insertion order; no theorem below depends
  on that order.
\<close>

datatype json =
    JNull
  | JBool bool
  | JNum int
  | JStr string
  | JArr "json list"
  | JObj "(string \<times> json) list"

type_synonym 'v props = "(string \<times> 'v) list"
type_synonym obj = "json props"

text \<open>\<^verbatim>\<open>o[k]\<close>, \<^verbatim>\<open>o[k] = v\<close> and \<^verbatim>\<open>delete o[k]\<close>.\<close>

fun getProp :: "'v props \<Rightarrow> string \<Rightarrow> 'v option" where
  "getProp [] k = None"
| "getProp ((k', v) # ps) k = (if k' = k then Some v else getProp ps k)"

fun setProp :: "'v props \<Rightarrow> string \<Rightarrow> 'v \<Rightarrow> 'v props" where
  "setProp [] k v = [(k, v)]"
| "setProp ((k', v') # ps) k v =
     (if k' = k then (k, v) # ps else (k', v') # setProp ps k v)"

fun deleteProp :: "'v props \<Rightarrow> string \<Rightarrow> 'v props" where
  "deleteProp [] k = []"
| "deleteProp ((k', v) # ps) k =
     (if k' = k then deleteProp ps k else (k', v) # deleteProp ps k)"

definition objectKeys :: "'v props \<Rightarrow> string list" where
  "objectKeys ps = map fst ps"

text \<open>Truthiness, as \<^verbatim>\<open>if (v)\<close>, \<^verbatim>\<open>!v\<close>, \<^verbatim>\<open>a || b\<close> and \<^verbatim>\<open>Boolean(v)\<close> read a value.\<close>

fun truthy :: "json \<Rightarrow> bool" where
  "truthy JNull = False"
| "truthy (JBool b) = b"
| "truthy (JNum n) = (n \<noteq> 0)"
| "truthy (JStr s) = (s \<noteq> [])"
| "truthy (JArr xs) = True"
| "truthy (JObj ps) = True"

definition truthy_opt :: "json option \<Rightarrow> bool" where
  "truthy_opt v = (case v of None \<Rightarrow> False | Some x \<Rightarrow> truthy x)"

definition js_or :: "json option \<Rightarrow> json option \<Rightarrow> json option" where
  "js_or a b = (if truthy_opt a then a else b)"

text \<open>
  String conversion, as string concatenation and a template literal apply it:
  decimal digits for a number, the elements joined by commas for an array.
\<close>

fun string_of_nat :: "nat \<Rightarrow> string" where
  "string_of_nat n =
     (if n < 10 then [''0123456789'' ! n]
      else string_of_nat (n div 10) @ [''0123456789'' ! (n mod 10)])"

declare string_of_nat.simps [simp del]

definition string_of_int :: "int \<Rightarrow> string" where
  "string_of_int i =
     (if i < 0 then CHR ''-'' # string_of_nat (nat (- i)) else string_of_nat (nat i))"

fun joinComma :: "string list \<Rightarrow> string" where
  "joinComma [] = []"
| "joinComma [s] = s"
| "joinComma (s # t # ss) = s @ CHR '','' # joinComma (t # ss)"

fun js_string :: "json \<Rightarrow> string" where
  "js_string JNull = ''null''"
| "js_string (JBool b) = (if b then ''true'' else ''false'')"
| "js_string (JNum n) = string_of_int n"
| "js_string (JStr s) = s"
| "js_string (JArr xs) = joinComma (map (\<lambda>x. if x = JNull then [] else js_string x) xs)"
| "js_string (JObj ps) = ''[object Object]''"

definition template :: "json option \<Rightarrow> string" where
  "template v = (case v of None \<Rightarrow> ''undefined'' | Some x \<Rightarrow> js_string x)"

text \<open>
  Errors are values. \<open>TypeError\<close> is what the runtime throws on a property read
  from \<^verbatim>\<open>null\<close> or \<^verbatim>\<open>undefined\<close> and on a call of something that is
  not a function. \<open>ResourceConflictError\<close> and \<open>InsufficientAccessError\<close> are
  the two constructors of \<^verbatim>\<open>util/errors\<close> the imposter calls; \<open>Opaque\<close> is
  an error object passed on as it came.
\<close>

datatype error =
    TypeError
  | ResourceConflictError string
  | InsufficientAccessError
  | Opaque obj

text \<open>
  Reading one of the properties \<^verbatim>\<open>proxy\<close>, \<^verbatim>\<open>response\<close>, \<^verbatim>\<open>is\<close>,
  \<^verbatim>\<open>_proxyResponseTime\<close> of a value: \<^verbatim>\<open>null\<close> throws, an object looks
  the property up, and a string, number, boolean or array has none of these names.
\<close>

fun field :: "json \<Rightarrow> string \<Rightarrow> error + json option" where
  "field JNull k = Inl TypeError"
| "field (JObj ps) k = Inr (getProp ps k)"
| "field v k = Inr None"

text \<open>
  Modelled from the spec: \<^verbatim>\<open>helpers.defined\<close> and \<^verbatim>\<open>helpers.clone\<close> of
  \<^verbatim>\<open>util/helpers\<close>, which is not among the sources. \<open>defined\<close> holds of every
  value but \<^verbatim>\<open>undefined\<close>; \<open>clone\<close> is the deep copy of the spec's step 2,
  and the copy of an immutable value is the value.
\<close>

definition defined :: "json option \<Rightarrow> bool" where
  "defined v = (v \<noteq> None)"

definition clone :: "obj \<Rightarrow> obj" where
  "clone request = request"

section \<open>Creation and error mapping\<close>

text \<open>
  A deferred of the promise library is settled once: \<^verbatim>\<open>resolve\<close> and
  \<^verbatim>\<open>reject\<close> on a settled deferred change nothing.
\<close>

datatype 'a promise = Pending | Fulfilled 'a | Rejected error

definition deferred_resolve :: "'a promise \<Rightarrow> 'a \<Rightarrow> 'a promise" where
  "deferred_resolve d x = (case d of Pending \<Rightarrow> Fulfilled x | _ \<Rightarrow> d)"

definition deferred_reject :: "'a promise \<Rightarrow> error \<Rightarrow> 'a promise" where
  "deferred_reject d e = (case d of Pending \<Rightarrow> Rejected e | _ \<Rightarrow> d)"

text \<open>\<^verbatim>\<open>createErrorHandler (deferred, port)\<close> applied to an error object.\<close>

definition createErrorHandler :: "'a promise \<Rightarrow> json option \<Rightarrow> obj \<Rightarrow> 'a promise" where
  "createErrorHandler deferred port error =
     (if getProp error ''errno'' = Some (JStr ''EADDRINUSE'')
      then deferred_reject deferred
             (ResourceConflictError (''Port '' @ template port @ '' is already in use''))
      else if getProp error ''errno'' = Some (JStr ''EACCES'')
      then deferred_reject deferred InsufficientAccessError
      else deferred_reject deferred (Opaque error))"

section \<open>The imposter\<close>

text \<open>
  The state of one call of \<^verbatim>\<open>create\<close>: its closure variables, and what the
  calls it makes on its collaborators leave behind. Stub objects live in a store,
  \<open>stubObjects\<close>, and are referred to by address, because the stub store and the
  record \<^verbatim>\<open>toJSON\<close> builds may refer to the same objects.
  \<open>recordMatchCalls\<close>, \<open>addStubCalls\<close> and \<open>closeCalls\<close> log the calls of
  \<^verbatim>\<open>recordMatch\<close>, \<^verbatim>\<open>stubs.addStub\<close> and \<^verbatim>\<open>server.close\<close>;
  \<open>pending\<close> holds the promises of the resolver that are not settled yet.
\<close>

type_synonym addr = nat
type_synonym responseConfig = nat

record server =
  srv_port :: json
  srv_metadata :: obj

record handle =
  h_port :: json
  h_url :: string

datatype call =
    ConfigRecordMatch responseConfig json
  | ResponseRecordMatch json

datatype pendingCall = Resolution responseConfig | ProxyResolution

record imposter =
  creationRequest :: obj
  config :: obj
  recordRequests :: "json option"
  deferred :: "handle promise"
  requests :: "obj list"
  imposterState :: obj
  numberOfRequests :: int
  metadata :: obj
  server :: "server option"
  stubObjects :: "addr \<Rightarrow> obj"
  addStubCalls :: "json list"
  recordMatchCalls :: "call list"
  pending :: "(nat \<times> pendingCall) list"
  nextPromise :: nat
  closeCalls :: nat

text \<open>
  \<^verbatim>\<open>create\<close> up to the point where it returns \<^verbatim>\<open>deferred.promise\<close>. The
  creation request \<open>creq\<close> is the one \<^verbatim>\<open>compatibility.upcast\<close> has
  rewritten, \<open>cfg\<close> the command line options, \<open>objects\<close> the store of stub
  objects at that moment. The error handler is made before the rewriting and
  holds the port of the request as it came; the rewriting is taken to leave
  \<^verbatim>\<open>port\<close> as it is.
\<close>

definition create :: "obj \<Rightarrow> obj \<Rightarrow> (addr \<Rightarrow> obj) \<Rightarrow> imposter" where
  "create creq cfg objects =
     \<lparr> creationRequest = creq,
       config = cfg,
       recordRequests =
         js_or (getProp cfg ''recordRequests'') (getProp creq ''recordRequests''),
       deferred = Pending,
       requests = [],
       imposterState = [],
       numberOfRequests = 0,
       metadata = [],
       server = None,
       stubObjects = objects,
       addStubCalls = [],
       recordMatchCalls = [],
       pending = [],
       nextPromise = 0,
       closeCalls = 0 \<rparr>"

subsection \<open>Request resolution\<close>

text \<open>
  \<^verbatim>\<open>getResponseFor (request)\<close> up to the promise it returns. \<open>now\<close> is the value
  of \<^verbatim>\<open>new Date().toJSON()\<close>. \<open>matched\<close> is what the two calls
  \<^verbatim>\<open>stubs.getResponseFor\<close> and \<^verbatim>\<open>resolver.resolve\<close> do: \<open>Inl\<close> when one
  of them throws, \<open>Inr\<close> the response configuration when the resolver hands back a
  promise; \<open>bag\<close> is the state bag as they leave it. Before the server is there,
  \<^verbatim>\<open>stubs\<close> is \<^verbatim>\<open>undefined\<close> and the call on it throws.
\<close>

definition getResponseFor ::
  "obj \<Rightarrow> string \<Rightarrow> error + responseConfig \<Rightarrow> obj \<Rightarrow> imposter \<Rightarrow> (error + nat) \<times> imposter"
where
  "getResponseFor request now matched bag s =
     (let s1 = s\<lparr>numberOfRequests := numberOfRequests s + 1\<rparr>;
          s2 = (if truthy_opt (recordRequests s1)
                then s1\<lparr>requests :=
                        requests s1 @ [setProp (clone request) ''timestamp'' (JStr now)]\<rparr>
                else s1)
      in case server s2 of
           None \<Rightarrow> (Inl TypeError, s2)
         | Some srv \<Rightarrow>
             (case matched of
                Inl e \<Rightarrow> (Inl e, s2\<lparr>imposterState := bag\<rparr>)
              | Inr responseConfig \<Rightarrow>
                  (Inr (nextPromise s2),
                   s2\<lparr>imposterState := bag,
                      pending := pending s2 @ [(nextPromise s2, Resolution responseConfig)],
                      nextPromise := nextPromise s2 + 1\<rparr>)))"

definition recordMatch :: "responseConfig \<Rightarrow> json \<Rightarrow> imposter \<Rightarrow> imposter" where
  "recordMatch responseConfig response s =
     s\<lparr>recordMatchCalls := recordMatchCalls s @ [ConfigRecordMatch responseConfig response]\<rparr>"

text \<open>The callback \<^verbatim>\<open>getResponseFor\<close> passes to \<^verbatim>\<open>then\<close>, run on the resolved response.\<close>

definition resolved :: "responseConfig \<Rightarrow> json \<Rightarrow> imposter \<Rightarrow> (error + json) \<times> imposter" where
  "resolved responseConfig response s =
     (if truthy_opt (getProp (config s) ''recordMatches'')
      then (case field response ''proxy'' of
              Inl e \<Rightarrow> (Inl e, s)
            | Inr proxy \<Rightarrow>
                if truthy_opt proxy then (Inr response, s)
                else (case field response ''response'' of
                        Inr (Some inner) \<Rightarrow>
                          if truthy inner then (Inr response, recordMatch responseConfig inner s)
                          else (Inr response, recordMatch responseConfig response s)
                      | _ \<Rightarrow> (Inr response, recordMatch responseConfig response s)))
      else (Inr response, s))"

subsection \<open>Deferred proxy completion\<close>

text \<open>
  \<^verbatim>\<open>getProxyResponseFor\<close> up to the promise: \<open>thrown\<close> is the error of
  \<^verbatim>\<open>resolver.resolveProxy\<close> when it throws. \<open>proxyResolved\<close> is the callback
  on the value that promise is fulfilled with.
\<close>

definition getProxyResponseFor :: "error option \<Rightarrow> imposter \<Rightarrow> (error + nat) \<times> imposter" where
  "getProxyResponseFor thrown s =
     (case server s of
        None \<Rightarrow> (Inl TypeError, s)
      | Some srv \<Rightarrow>
          (case thrown of
             Some e \<Rightarrow> (Inl e, s)
           | None \<Rightarrow>
               (Inr (nextPromise s),
                s\<lparr>pending := pending s @ [(nextPromise s, ProxyResolution)],
                  nextPromise := nextPromise s + 1\<rparr>)))"

text \<open>
  \<^verbatim>\<open>response.recordMatch()\<close> is a call of a method, and a method is no part
  of a JSON value: \<open>recordable\<close> says that the value the promise is fulfilled
  with comes with a \<^verbatim>\<open>recordMatch\<close> function. The call throws a
  \<open>TypeError\<close> on \<^verbatim>\<open>null\<close> (a property read), on a value without that
  function, and on an object whose own \<^verbatim>\<open>recordMatch\<close> property is a JSON
  value.
\<close>

definition canRecordMatch :: "json \<Rightarrow> bool \<Rightarrow> bool" where
  "canRecordMatch response recordable =
     (case response of
        JNull \<Rightarrow> False
      | JObj ps \<Rightarrow> getProp ps ''recordMatch'' = None \<and> recordable
      | _ \<Rightarrow> recordable)"

definition proxyResolved :: "json \<Rightarrow> bool \<Rightarrow> imposter \<Rightarrow> (error + json) \<times> imposter" where
  "proxyResolved response recordable s =
     (if truthy_opt (getProp (config s) ''recordMatches'')
      then (if canRecordMatch response recordable
            then (Inr response,
                  s\<lparr>recordMatchCalls := recordMatchCalls s @ [ResponseRecordMatch response]\<rparr>)
            else (Inl TypeError, s))
      else (Inr response, s))"

subsection \<open>External serialization\<close>

text \<open>
  A property of the record \<^verbatim>\<open>toJSON\<close> builds holds \<^verbatim>\<open>undefined\<close>, a
  plain value, the array \<^verbatim>\<open>stubs.stubs()\<close> returned (a list of references
  to stub objects) or the imposter's own \<^verbatim>\<open>requests\<close> array, which
  \<^verbatim>\<open>addDetailsTo\<close> stores without copying it.
\<close>

datatype rvalue = Undefined | Val json | StubRefs "addr list" | RequestsRef

type_synonym result = "rvalue props"

definition optVal :: "json option \<Rightarrow> rvalue" where
  "optVal v = (case v of None \<Rightarrow> Undefined | Some x \<Rightarrow> Val x)"

text \<open>\<open>snapshot\<close> is the array \<^verbatim>\<open>stubs.stubs()\<close> returns to this call.\<close>

definition addDetailsTo :: "addr list \<Rightarrow> imposter \<Rightarrow> result \<Rightarrow> result" where
  "addDetailsTo snapshot s result =
     (let r1 = (if truthy_opt (getProp (creationRequest s) ''name'')
                then setProp result ''name'' (optVal (getProp (creationRequest s) ''name''))
                else result);
          r2 = setProp r1 ''recordRequests''
                 (Val (JBool (truthy_opt (getProp (creationRequest s) ''recordRequests''))));
          r3 = fold (\<lambda>key r. setProp r key (optVal (getProp (metadata s) key)))
                 (objectKeys (metadata s)) r2;
          r4 = setProp r3 ''requests'' RequestsRef
      in setProp r4 ''stubs'' (StubRefs snapshot))"

text \<open>
  \<^verbatim>\<open>forEach\<close> over an array of stub objects with a callback that updates the
  stub in place. The callback returns the error it throws, if any, and the stub as
  it leaves it; a throw ends the loop, and what was written stays written.
\<close>

fun forEachStub ::
  "(obj \<Rightarrow> error option \<times> obj) \<Rightarrow> addr list \<Rightarrow> (addr \<Rightarrow> obj) \<Rightarrow> error option \<times> (addr \<Rightarrow> obj)"
where
  "forEachStub f [] objects = (None, objects)"
| "forEachStub f (a # as) objects =
     (case f (objects a) of
        (Some e, stub) \<Rightarrow> (Some e, objects(a := stub))
      | (None, stub) \<Rightarrow> forEachStub f as (objects(a := stub)))"

text \<open>The inner callback of \<^verbatim>\<open>removeNonEssentialInformationFrom\<close> on one response.\<close>

fun withoutProxyResponseTime :: "json \<Rightarrow> error + json" where
  "withoutProxyResponseTime JNull = Inl TypeError"
| "withoutProxyResponseTime (JObj response) =
     (case getProp response ''is'' of
        None \<Rightarrow> Inr (JObj response)
      | Some JNull \<Rightarrow> Inl TypeError
      | Some (JObj body) \<Rightarrow>
          (if defined (getProp body ''_proxyResponseTime'')
           then Inr (JObj (setProp response ''is''
                             (JObj (deleteProp body ''_proxyResponseTime''))))
           else Inr (JObj response))
      | Some v \<Rightarrow> Inr (JObj response))"
| "withoutProxyResponseTime v = Inr v"

fun forEachResponse :: "json list \<Rightarrow> error option \<times> json list" where
  "forEachResponse [] = (None, [])"
| "forEachResponse (r # rs) =
     (case withoutProxyResponseTime r of
        Inl e \<Rightarrow> (Some e, r # rs)
      | Inr r' \<Rightarrow> (case forEachResponse rs of (e, rs') \<Rightarrow> (e, r' # rs')))"

text \<open>
  The outer callback on one stub. Only an array has \<^verbatim>\<open>forEach\<close>: on any
  other \<^verbatim>\<open>stub.responses\<close> the call throws, after \<^verbatim>\<open>matches\<close> is gone.
\<close>

definition withoutMatches :: "obj \<Rightarrow> error option \<times> obj" where
  "withoutMatches stub =
     (let stub1 = (if truthy_opt (getProp stub ''matches'')
                   then deleteProp stub ''matches'' else stub)
      in case getProp stub1 ''responses'' of
           Some (JArr rs) \<Rightarrow>
             (case forEachResponse rs of
                (e, rs') \<Rightarrow> (e, setProp stub1 ''responses'' (JArr rs')))
         | _ \<Rightarrow> (Some TypeError, stub1))"

text \<open>
  \<^verbatim>\<open>result.stubs\<close> is \<^verbatim>\<open>undefined\<close> when \<^verbatim>\<open>addDetailsTo\<close> did not
  run, and the array of stub references when it did: \<^verbatim>\<open>toJSON\<close> leaves
  nothing else there, and every other case is answered as the first.
\<close>

definition removeNonEssentialInformationFrom ::
  "result \<Rightarrow> imposter \<Rightarrow> (error + result) \<times> imposter"
where
  "removeNonEssentialInformationFrom result s =
     (case getProp result ''stubs'' of
        Some (StubRefs refs) \<Rightarrow>
          (case forEachStub withoutMatches refs (stubObjects s) of
             (Some e, objects) \<Rightarrow> (Inl e, s\<lparr>stubObjects := objects\<rparr>)
           | (None, objects) \<Rightarrow>
               (Inr (deleteProp (deleteProp (deleteProp result ''numberOfRequests'')
                                   ''requests'') ''_links''),
                s\<lparr>stubObjects := objects\<rparr>))
      | _ \<Rightarrow> (Inl TypeError, s))"

text \<open>
  \<^verbatim>\<open>response.hasOwnProperty('proxy')\<close>: \<^verbatim>\<open>null\<close> throws; an object that
  has a property named \<^verbatim>\<open>hasOwnProperty\<close> of its own holds a JSON value there,
  which is not a function, and the call throws.
\<close>

fun hasOwnProxy :: "json \<Rightarrow> error + bool" where
  "hasOwnProxy JNull = Inl TypeError"
| "hasOwnProxy (JObj response) =
     (if getProp response ''hasOwnProperty'' \<noteq> None then Inl TypeError
      else Inr (getProp response ''proxy'' \<noteq> None))"
| "hasOwnProxy v = Inr False"

fun filterResponses :: "json list \<Rightarrow> error + json list" where
  "filterResponses [] = Inr []"
| "filterResponses (r # rs) =
     (case hasOwnProxy r of
        Inl e \<Rightarrow> Inl e
      | Inr p \<Rightarrow>
          (case filterResponses rs of
             Inl e \<Rightarrow> Inl e
           | Inr rs' \<Rightarrow> Inr (if \<not> p then r # rs' else rs')))"

definition withoutProxies :: "obj \<Rightarrow> error option \<times> obj" where
  "withoutProxies stub =
     (case getProp stub ''responses'' of
        Some (JArr rs) \<Rightarrow>
          (case filterResponses rs of
             Inl e \<Rightarrow> (Some e, stub)
           | Inr rs' \<Rightarrow> (None, setProp stub ''responses'' (JArr rs')))
      | _ \<Rightarrow> (Some TypeError, stub))"

text \<open>
  \<^verbatim>\<open>stub.responses.length > 0\<close>, read after the loop has made an array of
  every \<^verbatim>\<open>stub.responses\<close>.
\<close>

definition hasResponses :: "obj \<Rightarrow> bool" where
  "hasResponses stub = (case getProp stub ''responses'' of Some (JArr rs) \<Rightarrow> rs \<noteq> [] | _ \<Rightarrow> False)"

definition removeProxiesFrom :: "result \<Rightarrow> imposter \<Rightarrow> (error + result) \<times> imposter" where
  "removeProxiesFrom result s =
     (case getProp result ''stubs'' of
        Some (StubRefs refs) \<Rightarrow>
          (case forEachStub withoutProxies refs (stubObjects s) of
             (Some e, objects) \<Rightarrow> (Inl e, s\<lparr>stubObjects := objects\<rparr>)
           | (None, objects) \<Rightarrow>
               (Inr (setProp result ''stubs''
                       (StubRefs (filter (\<lambda>a. hasResponses (objects a)) refs))),
                s\<lparr>stubObjects := objects\<rparr>))
      | _ \<Rightarrow> (Inl TypeError, s))"

text \<open>
  \<^verbatim>\<open>options || {}\<close>, read at \<^verbatim>\<open>list\<close>, \<^verbatim>\<open>replayable\<close> and
  \<^verbatim>\<open>removeProxies\<close>: only an object has any of them.
\<close>

definition optionsOrEmpty :: "json option \<Rightarrow> obj" where
  "optionsOrEmpty options = (case options of Some (JObj ps) \<Rightarrow> ps | _ \<Rightarrow> [])"

text \<open>
  \<^verbatim>\<open>toJSON (options)\<close> in two steps: \<open>resultWithLinks\<close> is the record up to
  the assignment of \<^verbatim>\<open>result._links\<close>, and \<open>toJSON\<close> applies the two
  transforms to it. It returns the record, or the error thrown, and the state it
  leaves.
\<close>

definition resultWithLinks :: "server \<Rightarrow> json option \<Rightarrow> addr list \<Rightarrow> imposter \<Rightarrow> result" where
  "resultWithLinks srv options snapshot s =
     (let result = [(''protocol'', optVal (getProp (creationRequest s) ''protocol'')),
                    (''port'', Val (srv_port srv)),
                    (''numberOfRequests'', Val (JNum (numberOfRequests s)))];
          r1 = (if \<not> truthy_opt (getProp (optionsOrEmpty options) ''list'')
                then addDetailsTo snapshot s result else result)
      in setProp r1 ''_links''
           (Val (JObj [(''self'',
              JObj [(''href'', JStr (''/imposters/'' @ js_string (srv_port srv)))])])))"

definition toJSON ::
  "server \<Rightarrow> json option \<Rightarrow> addr list \<Rightarrow> imposter \<Rightarrow> (error + result) \<times> imposter"
where
  "toJSON srv options snapshot s =
     (case (if truthy_opt (getProp (optionsOrEmpty options) ''replayable'')
            then removeNonEssentialInformationFrom (resultWithLinks srv options snapshot s) s
            else (Inr (resultWithLinks srv options snapshot s), s)) of
        (Inl e, s1) \<Rightarrow> (Inl e, s1)
      | (Inr r3, s1) \<Rightarrow>
          (if truthy_opt (getProp (optionsOrEmpty options) ''removeProxies'')
           then removeProxiesFrom r3 s1 else (Inr r3, s1)))"

subsection \<open>Shutdown\<close>

definition stop :: "imposter \<Rightarrow> imposter" where
  "stop s = s\<lparr>closeCalls := closeCalls s + 1\<rparr>"

section \<open>The life of an imposter\<close>

text \<open>
  What happens to an imposter, one event at a time, on the single thread of the
  runtime. An event carries what the imposter's collaborators decide: the error
  the domain caught, the server the protocol created, the outcome of stub
  matching, the settlement of a promise of the resolver (with the state bag as the
  resolver leaves it, and whether the value comes with a \<^verbatim>\<open>recordMatch\<close>
  function), the store of stub objects as \<^verbatim>\<open>addStub\<close> and
  \<^verbatim>\<open>resetProxies\<close> of the stub store leave it. \<open>StubsChanged\<close> is any
  other change the collaborators make to stub objects: the stub store as it
  registers the initial stubs or picks a response, \<^verbatim>\<open>recordMatch\<close> as it
  appends to a stub's match history.
\<close>

datatype event =
    DomainError obj
  | ServerReady server
  | GetResponseFor obj string "error + responseConfig" obj
  | Settled nat "error + json" bool obj
  | GetProxyResponseFor "error option"
  | AddStub json "addr \<Rightarrow> obj"
  | ResetProxies "addr \<Rightarrow> obj"
  | ToJSON "json option" "addr list"
  | Stop
  | StubsChanged "addr \<Rightarrow> obj"

text \<open>
  The callback of \<^verbatim>\<open>Protocol.createServer (...).done\<close>. A throw inside it
  reaches the domain, and so the error handler, as an error object
  (\<open>typeErrorObject\<close>: an error of the runtime has no \<^verbatim>\<open>errno\<close>).
\<close>

definition typeErrorObject :: obj where
  "typeErrorObject = [(''name'', JStr ''TypeError'')]"

definition serverReady :: "server \<Rightarrow> imposter \<Rightarrow> imposter" where
  "serverReady srv s =
     (let s1 = s\<lparr>metadata := srv_metadata srv, server := Some srv\<rparr>;
          h = \<lparr>h_port = srv_port srv, h_url = ''/imposters/'' @ js_string (srv_port srv)\<rparr>
      in case getProp (creationRequest s1) ''stubs'' of
           None \<Rightarrow> s1\<lparr>deferred := deferred_resolve (deferred s1) h\<rparr>
         | Some v \<Rightarrow>
             if \<not> truthy v then s1\<lparr>deferred := deferred_resolve (deferred s1) h\<rparr>
             else (case v of
                     JArr stubs \<Rightarrow>
                       s1\<lparr>addStubCalls := addStubCalls s1 @ stubs,
                          deferred := deferred_resolve (deferred s1) h\<rparr>
                   | _ \<Rightarrow>
                       s1\<lparr>deferred :=
                            createErrorHandler (deferred s1)
                              (getProp (creationRequest s1) ''port'') typeErrorObject\<rparr>))"

definition settled :: "nat \<Rightarrow> error + json \<Rightarrow> bool \<Rightarrow> obj \<Rightarrow> imposter \<Rightarrow> imposter" where
  "settled p outcome recordable bag s =
     (case map_of (pending s) p of
        None \<Rightarrow> s
      | Some waiting \<Rightarrow>
          (let s1 = s\<lparr>pending := filter (\<lambda>(q, w). q \<noteq> p) (pending s),
                       imposterState := bag\<rparr>
           in case outcome of
                Inl e \<Rightarrow> s1
              | Inr response \<Rightarrow>
                  (case waiting of
                     Resolution responseConfig \<Rightarrow> snd (resolved responseConfig response s1)
                   | ProxyResolution \<Rightarrow> snd (proxyResolved response recordable s1))))"

fun step :: "imposter \<Rightarrow> event \<Rightarrow> imposter" where
  "step s (DomainError e) =
     s\<lparr>deferred := createErrorHandler (deferred s) (getProp (creationRequest s) ''port'') e\<rparr>"
| "step s (ServerReady srv) = (if server s = None then serverReady srv s else s)"
| "step s (GetResponseFor request now matched bag) =
     snd (getResponseFor request now matched bag s)"
| "step s (Settled p outcome recordable bag) = settled p outcome recordable bag s"
| "step s (GetProxyResponseFor thrown) = snd (getProxyResponseFor thrown s)"
| "step s (AddStub stub objects) =
     (if server s = None then s else s\<lparr>stubObjects := objects\<rparr>)"
| "step s (ResetProxies objects) =
     (if server s = None then s else s\<lparr>stubObjects := objects\<rparr>)"
| "step s (ToJSON options snapshot) =
     (case server s of None \<Rightarrow> s | Some srv \<Rightarrow> snd (toJSON srv options snapshot s))"
| "step s Stop = (if server s = None then s else stop s)"
| "step s (StubsChanged objects) = s\<lparr>stubObjects := objects\<rparr>"

definition run :: "imposter \<Rightarrow> event list \<Rightarrow> imposter" where
  "run s evs = foldl step s evs"

text \<open>The events that are calls of \<^verbatim>\<open>getResponseFor\<close>.\<close>

definition isRequest :: "event \<Rightarrow> bool" where
  "isRequest ev = (case ev of GetResponseFor request now matched bag \<Rightarrow> True | _ \<Rightarrow> False)"

text \<open>
  What one event appends to the recorded-request log when recording is on: a call
  of \<^verbatim>\<open>getResponseFor\<close> appends the copy of its request with the clock's
  value under \<^verbatim>\<open>timestamp\<close>, any other event nothing.
\<close>

definition stamped :: "event \<Rightarrow> obj list" where
  "stamped ev =
     (case ev of
        GetResponseFor request now matched bag \<Rightarrow>
          [setProp (clone request) ''timestamp'' (JStr now)]
      | _ \<Rightarrow> [])"

text \<open>The invariant of the data model: the log is never longer than the counter.\<close>

definition logWithinCounter :: "imposter \<Rightarrow> bool" where
  "logWithinCounter s = (int (length (requests s)) \<le> numberOfRequests s)"







text \<open>
  The promises of the resolver are told apart by their numbers: no pending promise
  has a number that is still to be given out.
\<close>

definition freshIds :: "imposter \<Rightarrow> bool" where
  "freshIds s = (\<forall>q \<in> fst ` set (pending s). q < nextPromise s)"

section \<open>Properties\<close>

subsection \<open>Objects\<close>

lemma getProp_setProp:
  "getProp (setProp ps k v) k' = (if k' = k then Some v else getProp ps k')"
  by (induction ps) auto

lemma getProp_deleteProp:
  "getProp (deleteProp ps k) k' = (if k' = k then None else getProp ps k')"
  by (induction ps) auto

subsection \<open>What each operation leaves alone\<close>

lemma forEachStub_frame: "a \<notin> set as \<Longrightarrow> snd (forEachStub f as objects) a = objects a"
  by (induction as arbitrary: objects) (auto split: prod.splits option.splits)

lemma removeNonEssential_frame:
  "snd (removeNonEssentialInformationFrom r s) =
     s\<lparr>stubObjects := stubObjects (snd (removeNonEssentialInformationFrom r s))\<rparr>"
  by (simp add: removeNonEssentialInformationFrom_def
        split: option.splits rvalue.splits prod.splits)

lemma removeProxies_frame:
  "snd (removeProxiesFrom r s) = s\<lparr>stubObjects := stubObjects (snd (removeProxiesFrom r s))\<rparr>"
  by (simp add: removeProxiesFrom_def split: option.splits rvalue.splits prod.splits)

lemma toJSON_frame:
  "snd (toJSON srv options snapshot s) =
     s\<lparr>stubObjects := stubObjects (snd (toJSON srv options snapshot s))\<rparr>"
proof -
  let ?opts = "optionsOrEmpty options"
  let ?r2 = "resultWithLinks srv options snapshot s"
  show ?thesis
  proof (cases "truthy_opt (getProp ?opts ''replayable'')")
    case False
    then show ?thesis using removeProxies_frame [of ?r2 s] by (simp add: toJSON_def)
  next
    case True
    obtain x s1 where x: "removeNonEssentialInformationFrom ?r2 s = (x, s1)" by fastforce
    have s1: "s1 = s\<lparr>stubObjects := stubObjects s1\<rparr>"
      using removeNonEssential_frame [of ?r2 s] x by simp
    show ?thesis
    proof (cases x)
      case (Inl e)
      then show ?thesis using True x s1 by (simp add: toJSON_def)
    next
      case (Inr r3)
      have "snd (removeProxiesFrom r3 s1) =
              s\<lparr>stubObjects := stubObjects (snd (removeProxiesFrom r3 s1))\<rparr>"
        using removeProxies_frame [of r3 s1] s1
        by (metis imposter.surjective imposter.update_convs(10))
      then show ?thesis using True x Inr s1 by (simp add: toJSON_def)
    qed
  qed
qed

lemma resolved_frame:
  "snd (resolved c r s) = s\<lparr>recordMatchCalls := recordMatchCalls (snd (resolved c r s))\<rparr>"
  by (simp add: resolved_def recordMatch_def split: sum.splits option.splits)

lemma proxyResolved_frame:
  "snd (proxyResolved r m s) =
     s\<lparr>recordMatchCalls := recordMatchCalls (snd (proxyResolved r m s))\<rparr>"
  by (simp add: proxyResolved_def)

subsection \<open>The request counter\<close>

lemma settled_counter: "numberOfRequests (settled p outcome recordable bag s) = numberOfRequests s"
proof -
  have a: "\<And>c r t. numberOfRequests (snd (resolved c r t)) = numberOfRequests t"
    by (subst resolved_frame) simp
  have b: "\<And>r m t. numberOfRequests (snd (proxyResolved r m t)) = numberOfRequests t"
    by (subst proxyResolved_frame) simp
  show ?thesis
    by (simp add: settled_def Let_def a b split: option.splits sum.splits pendingCall.splits)
qed

lemma toJSON_counter: "numberOfRequests (snd (toJSON srv options snapshot s)) = numberOfRequests s"
  by (subst toJSON_frame) simp

lemma serverReady_counter: "numberOfRequests (serverReady srv s) = numberOfRequests s"
  by (simp add: serverReady_def Let_def split: option.splits json.splits)

lemma getResponseFor_counter:
  "numberOfRequests (snd (getResponseFor request now matched bag s)) = numberOfRequests s + 1"
  by (simp add: getResponseFor_def Let_def split: option.splits sum.splits)

lemma getProxyResponseFor_counter:
  "numberOfRequests (snd (getProxyResponseFor thrown s)) = numberOfRequests s"
  by (simp add: getProxyResponseFor_def split: option.splits)

lemma step_counter:
  "numberOfRequests (step s ev) = numberOfRequests s + (if isRequest ev then 1 else 0)"
  by (cases ev)
     (simp_all add: isRequest_def settled_counter toJSON_counter serverReady_counter
        getResponseFor_counter getProxyResponseFor_counter stop_def split: option.splits)

lemma run_counter:
  "numberOfRequests (run s evs) = numberOfRequests s + int (length (filter isRequest evs))"
  unfolding run_def
  by (induction evs arbitrary: s) (simp_all add: step_counter)

text \<open>
  C1. One call of \<^verbatim>\<open>getResponseFor\<close> adds exactly one to the request counter,
  whatever stub matching and resolution do (\<open>matched\<close> may be a throw), and no
  other event changes the counter: after any sequence of events on a newly created
  imposter, among them requests that fail and promises that are rejected, the
  counter is the number of calls of \<^verbatim>\<open>getResponseFor\<close> in the sequence.
\<close>

theorem request_counter_counts_every_request:
  "numberOfRequests (snd (getResponseFor request now matched bag s)) = numberOfRequests s + 1
   \<and> numberOfRequests (run s evs) = numberOfRequests s + int (length (filter isRequest evs))
   \<and> numberOfRequests (run (create creq cfg objects) evs) = int (length (filter isRequest evs))"
  using run_counter [of "create creq cfg objects" evs]
  by (simp add: getResponseFor_counter run_counter create_def)

subsection \<open>The recorded-request log\<close>

lemma settled_requests: "requests (settled p outcome recordable bag s) = requests s"
proof -
  have a: "\<And>c r t. requests (snd (resolved c r t)) = requests t"
    by (subst resolved_frame) simp
  have b: "\<And>r m t. requests (snd (proxyResolved r m t)) = requests t"
    by (subst proxyResolved_frame) simp
  show ?thesis
    by (simp add: settled_def Let_def a b split: option.splits sum.splits pendingCall.splits)
qed

lemma settled_recordRequests: "recordRequests (settled p outcome recordable bag s) = recordRequests s"
proof -
  have a: "\<And>c r t. recordRequests (snd (resolved c r t)) = recordRequests t"
    by (subst resolved_frame) simp
  have b: "\<And>r m t. recordRequests (snd (proxyResolved r m t)) = recordRequests t"
    by (subst proxyResolved_frame) simp
  show ?thesis
    by (simp add: settled_def Let_def a b split: option.splits sum.splits pendingCall.splits)
qed

lemma toJSON_requests: "requests (snd (toJSON srv options snapshot s)) = requests s"
  by (subst toJSON_frame) simp

lemma toJSON_recordRequests:
  "recordRequests (snd (toJSON srv options snapshot s)) = recordRequests s"
  by (subst toJSON_frame) simp

lemma serverReady_requests: "requests (serverReady srv s) = requests s"
  by (simp add: serverReady_def Let_def split: option.splits json.splits)

lemma serverReady_recordRequests: "recordRequests (serverReady srv s) = recordRequests s"
  by (simp add: serverReady_def Let_def split: option.splits json.splits)

lemma getResponseFor_requests:
  "requests (snd (getResponseFor request now matched bag s)) =
     requests s @ (if truthy_opt (recordRequests s)
                   then [setProp (clone request) ''timestamp'' (JStr now)] else [])"
  by (simp add: getResponseFor_def Let_def split: option.splits sum.splits)

lemma getResponseFor_recordRequests:
  "recordRequests (snd (getResponseFor request now matched bag s)) = recordRequests s"
  by (simp add: getResponseFor_def Let_def split: option.splits sum.splits)

lemma getProxyResponseFor_requests:
  "requests (snd (getProxyResponseFor thrown s)) = requests s"
  by (simp add: getProxyResponseFor_def split: option.splits)

lemma getProxyResponseFor_recordRequests:
  "recordRequests (snd (getProxyResponseFor thrown s)) = recordRequests s"
  by (simp add: getProxyResponseFor_def split: option.splits)

lemma step_recordRequests: "recordRequests (step s ev) = recordRequests s"
  by (cases ev)
     (simp_all add: settled_recordRequests toJSON_recordRequests serverReady_recordRequests
        getResponseFor_recordRequests getProxyResponseFor_recordRequests stop_def
        split: option.splits)

lemma step_requests:
  "requests (step s ev) = requests s @ (if truthy_opt (recordRequests s) then stamped ev else [])"
  by (cases ev)
     (simp_all add: stamped_def settled_requests toJSON_requests serverReady_requests
        getResponseFor_requests getProxyResponseFor_requests stop_def split: option.splits)

lemma run_recordRequests: "recordRequests (run s evs) = recordRequests s"
  unfolding run_def
  by (induction evs arbitrary: s) (simp_all add: step_recordRequests)

lemma run_requests:
  "requests (run s evs) =
     requests s @ (if truthy_opt (recordRequests s) then concat (map stamped evs) else [])"
  unfolding run_def
  by (induction evs arbitrary: s) (simp_all add: step_requests step_recordRequests)

lemma length_concat_stamped: "length (concat (map stamped evs)) = length (filter isRequest evs)"
  by (induction evs) (auto simp: stamped_def isRequest_def split: event.splits)

lemma create_recording:
  "truthy_opt (recordRequests (create creq cfg objects)) =
     (truthy_opt (getProp cfg ''recordRequests'') \<or> truthy_opt (getProp creq ''recordRequests''))"
  by (simp add: create_def js_or_def)

lemma stamped_entry:
  "e \<in> set (concat (map stamped evs)) \<Longrightarrow>
     \<exists>request now matched bag. GetResponseFor request now matched bag \<in> set evs
        \<and> e = setProp (clone request) ''timestamp'' (JStr now)"
proof -
  assume "e \<in> set (concat (map stamped evs))"
  then obtain ev where ev: "ev \<in> set evs" and e: "e \<in> set (stamped ev)" by auto
  from e obtain request now matched bag where
    "ev = GetResponseFor request now matched bag"
    "e = setProp (clone request) ''timestamp'' (JStr now)"
    by (cases ev) (simp_all add: stamped_def)
  with ev show ?thesis by blast
qed

text \<open>
  C2. On a newly created imposter, after any sequence of events: if the global
  \<^verbatim>\<open>recordRequests\<close> option or the creation request's \<^verbatim>\<open>recordRequests\<close>
  is truthy, the log holds one entry per call of \<^verbatim>\<open>getResponseFor\<close>, in
  order, so as many entries as requests; if neither is, the log is empty. Every
  entry is the copy of a request of the sequence: it agrees with that request on
  every property but \<^verbatim>\<open>timestamp\<close>, and its \<^verbatim>\<open>timestamp\<close> is the value
  the clock had while that request was handled, a moment after the creation of
  the imposter.
\<close>

theorem recorded_requests_follow_recording_flag:
  "(truthy_opt (getProp cfg ''recordRequests'') \<or> truthy_opt (getProp creq ''recordRequests'') \<longrightarrow>
      requests (run (create creq cfg objects) evs) = concat (map stamped evs)
      \<and> length (requests (run (create creq cfg objects) evs)) = length (filter isRequest evs))
   \<and> (\<not> (truthy_opt (getProp cfg ''recordRequests'')
           \<or> truthy_opt (getProp creq ''recordRequests'')) \<longrightarrow>
      requests (run (create creq cfg objects) evs) = [])
   \<and> (\<forall>e \<in> set (requests (run (create creq cfg objects) evs)).
        \<exists>request now matched bag. GetResponseFor request now matched bag \<in> set evs
          \<and> getProp e ''timestamp'' = Some (JStr now)
          \<and> (\<forall>k. k \<noteq> ''timestamp'' \<longrightarrow> getProp e k = getProp request k))"
proof -
  let ?s0 = "create creq cfg objects"
  let ?on = "truthy_opt (getProp cfg ''recordRequests'')
             \<or> truthy_opt (getProp creq ''recordRequests'')"
  have r: "requests (run ?s0 evs) =
             (if truthy_opt (recordRequests ?s0) then concat (map stamped evs) else [])"
    using run_requests [of ?s0 evs] by (simp add: create_def)
  have a: "?on \<longrightarrow>
      requests (run ?s0 evs) = concat (map stamped evs)
      \<and> length (requests (run ?s0 evs)) = length (filter isRequest evs)"
    using r create_recording [of creq cfg objects] length_concat_stamped [of evs] by simp
  have b: "\<not> ?on \<longrightarrow> requests (run ?s0 evs) = []"
    using r create_recording [of creq cfg objects] by simp
  have c: "\<forall>e \<in> set (requests (run ?s0 evs)).
        \<exists>request now matched bag. GetResponseFor request now matched bag \<in> set evs
          \<and> getProp e ''timestamp'' = Some (JStr now)
          \<and> (\<forall>k. k \<noteq> ''timestamp'' \<longrightarrow> getProp e k = getProp request k)"
  proof
    fix e assume "e \<in> set (requests (run ?s0 evs))"
    then have "e \<in> set (concat (map stamped evs))" using r by (simp split: if_splits)
    then obtain request now matched bag where
      ev: "GetResponseFor request now matched bag \<in> set evs"
      and e: "e = setProp (clone request) ''timestamp'' (JStr now)"
      using stamped_entry by blast
    have "getProp e ''timestamp'' = Some (JStr now)
          \<and> (\<forall>k. k \<noteq> ''timestamp'' \<longrightarrow> getProp e k = getProp request k)"
      using e by (simp add: getProp_setProp clone_def)
    then show "\<exists>request now matched bag. GetResponseFor request now matched bag \<in> set evs
          \<and> getProp e ''timestamp'' = Some (JStr now)
          \<and> (\<forall>k. k \<noteq> ''timestamp'' \<longrightarrow> getProp e k = getProp request k)"
      using ev by blast
  qed
  show ?thesis using a b c by blast
qed

theorem recorded_requests_witness:
  "requests (run (create [(''protocol'', JStr ''tcp''), (''recordRequests'', JBool True)] []
                   (\<lambda>a. []))
      [ServerReady \<lparr>srv_port = JNum 6000, srv_metadata = []\<rparr>,
       GetResponseFor [(''data'', JStr ''ping'')] ''2026-01-01T00:00:00.000Z'' (Inr 0) []])
     = [[(''data'', JStr ''ping''), (''timestamp'', JStr ''2026-01-01T00:00:00.000Z'')]]
   \<and> requests (run (create [(''protocol'', JStr ''tcp'')] [] (\<lambda>a. []))
      [ServerReady \<lparr>srv_port = JNum 6000, srv_metadata = []\<rparr>,
       GetResponseFor [(''data'', JStr ''ping'')] ''2026-01-01T00:00:00.000Z'' (Inr 0) []])
     = []"
proof -
  let ?evs = "[ServerReady \<lparr>srv_port = JNum 6000, srv_metadata = []\<rparr>,
       GetResponseFor [(''data'', JStr ''ping'')] ''2026-01-01T00:00:00.000Z'' (Inr 0) []]"
  let ?on = "[(''protocol'', JStr ''tcp''), (''recordRequests'', JBool True)]"
  let ?off = "[(''protocol'', JStr ''tcp'')]"
  have h1: "truthy_opt (getProp [] ''recordRequests'')
            \<or> truthy_opt (getProp ?on ''recordRequests'')"
    by (simp add: truthy_opt_def)
  have h2: "\<not> (truthy_opt (getProp [] ''recordRequests'')
               \<or> truthy_opt (getProp ?off ''recordRequests''))"
    by (simp add: truthy_opt_def)
  have "requests (run (create ?on [] (\<lambda>a. [])) ?evs) = concat (map stamped ?evs)"
    using recorded_requests_follow_recording_flag [of "[]" ?on "\<lambda>a. []" ?evs] h1 by blast
  moreover have "requests (run (create ?off [] (\<lambda>a. [])) ?evs) = []"
    using recorded_requests_follow_recording_flag [of "[]" ?off "\<lambda>a. []" ?evs] h2 by blast
  ultimately show ?thesis by (simp add: stamped_def clone_def)
qed

subsection \<open>The log and the counter\<close>

lemma step_logWithinCounter: "logWithinCounter s \<Longrightarrow> logWithinCounter (step s ev)"
  by (cases "isRequest ev")
     (auto simp: logWithinCounter_def step_counter step_requests stamped_def isRequest_def
        split: event.splits)

lemma run_logWithinCounter: "logWithinCounter s \<Longrightarrow> logWithinCounter (run s evs)"
  unfolding run_def
  by (induction evs arbitrary: s) (simp_all add: step_logWithinCounter)

text \<open>
  C9. The recorded-request log is never longer than the request counter: this
  holds after any sequence of events on a newly created imposter, every event
  preserves it, and so does each operation taken alone: \<^verbatim>\<open>getResponseFor\<close>,
  \<^verbatim>\<open>getProxyResponseFor\<close>, \<^verbatim>\<open>toJSON\<close>, \<^verbatim>\<open>stop\<close>, and
  \<^verbatim>\<open>addStub\<close> and \<^verbatim>\<open>resetProxies\<close>, which are the stub store's and
  change its objects only.
\<close>

theorem log_never_longer_than_counter:
  "logWithinCounter (run (create creq cfg objects) evs)
   \<and> (logWithinCounter s \<longrightarrow> logWithinCounter (step s ev))
   \<and> (logWithinCounter s \<longrightarrow>
         logWithinCounter (snd (getResponseFor request now matched bag s))
         \<and> logWithinCounter (snd (getProxyResponseFor thrown s))
         \<and> logWithinCounter (snd (toJSON srv options snapshot s))
         \<and> logWithinCounter (stop s)
         \<and> logWithinCounter (s\<lparr>stubObjects := objects'\<rparr>))"
proof -
  have "logWithinCounter (create creq cfg objects)"
    by (simp add: logWithinCounter_def create_def)
  then have a: "logWithinCounter (run (create creq cfg objects) evs)"
    by (rule run_logWithinCounter)
  have b: "logWithinCounter s \<longrightarrow>
         logWithinCounter (snd (getResponseFor request now matched bag s))
         \<and> logWithinCounter (snd (getProxyResponseFor thrown s))
         \<and> logWithinCounter (snd (toJSON srv options snapshot s))
         \<and> logWithinCounter (stop s)
         \<and> logWithinCounter (s\<lparr>stubObjects := objects'\<rparr>)"
    by (simp add: logWithinCounter_def getResponseFor_counter getResponseFor_requests
          getProxyResponseFor_counter getProxyResponseFor_requests toJSON_counter
          toJSON_requests stop_def)
  show ?thesis using a b step_logWithinCounter by blast
qed

theorem log_never_longer_than_counter_witness:
  "logWithinCounter (create [(''recordRequests'', JBool True)] [] (\<lambda>a. []))
   \<and> logWithinCounter
        (step (create [(''recordRequests'', JBool True)] [] (\<lambda>a. []))
           (GetResponseFor [(''data'', JStr ''ping'')] ''2026-01-01T00:00:00.000Z''
              (Inl TypeError) []))
   \<and> logWithinCounter
        (snd (toJSON \<lparr>srv_port = JNum 6000, srv_metadata = []\<rparr> None []
                (create [(''recordRequests'', JBool True)] [] (\<lambda>a. []))))"
proof -
  let ?s = "create [(''recordRequests'', JBool True)] [] (\<lambda>a. [])"
  have h: "logWithinCounter ?s"
    by (simp add: logWithinCounter_def create_def)
  show ?thesis
    using h log_never_longer_than_counter [of "[]" "[]" "\<lambda>a. []" "[]" ?s] by blast
qed

subsection \<open>Creation failures\<close>

lemma deferred_reject_settled: "d \<noteq> Pending \<Longrightarrow> deferred_reject d e = d"
  by (cases d) (simp_all add: deferred_reject_def)

lemma deferred_resolve_settled: "d \<noteq> Pending \<Longrightarrow> deferred_resolve d x = d"
  by (cases d) (simp_all add: deferred_resolve_def)

lemma createErrorHandler_settled: "d \<noteq> Pending \<Longrightarrow> createErrorHandler d port e = d"
  by (simp add: createErrorHandler_def deferred_reject_settled)

lemma serverReady_settled: "deferred s \<noteq> Pending \<Longrightarrow> deferred (serverReady srv s) = deferred s"
  by (simp add: serverReady_def Let_def deferred_resolve_settled createErrorHandler_settled
        split: option.splits json.splits)

lemma settled_deferred: "deferred (settled p outcome recordable bag s) = deferred s"
proof -
  have a: "\<And>c r t. deferred (snd (resolved c r t)) = deferred t"
    by (subst resolved_frame) simp
  have b: "\<And>r m t. deferred (snd (proxyResolved r m t)) = deferred t"
    by (subst proxyResolved_frame) simp
  show ?thesis
    by (simp add: settled_def Let_def a b split: option.splits sum.splits pendingCall.splits)
qed

lemma toJSON_deferred: "deferred (snd (toJSON srv options snapshot s)) = deferred s"
  by (subst toJSON_frame) simp

lemma getResponseFor_deferred:
  "deferred (snd (getResponseFor request now matched bag s)) = deferred s"
  by (simp add: getResponseFor_def Let_def split: option.splits sum.splits)

lemma getProxyResponseFor_deferred: "deferred (snd (getProxyResponseFor thrown s)) = deferred s"
  by (simp add: getProxyResponseFor_def split: option.splits)

lemma step_settled: "deferred s \<noteq> Pending \<Longrightarrow> deferred (step s ev) = deferred s"
  by (cases ev)
     (simp_all add: createErrorHandler_settled serverReady_settled settled_deferred
        toJSON_deferred getResponseFor_deferred getProxyResponseFor_deferred stop_def
        split: option.splits)

lemma run_settled: "deferred s \<noteq> Pending \<Longrightarrow> deferred (run s evs) = deferred s"
  unfolding run_def
  by (induction evs arbitrary: s) (simp_all add: step_settled)

text \<open>
  C3. While the promise of \<^verbatim>\<open>create\<close> is pending (as it is when
  \<^verbatim>\<open>create\<close> returns), an error the domain catches settles it for good: with
  \<^verbatim>\<open>errno\<close> \<^verbatim>\<open>EADDRINUSE\<close> it is rejected with a
  \<open>ResourceConflictError\<close> whose message names the port of the creation
  request, with \<^verbatim>\<open>EACCES\<close> with an \<open>InsufficientAccessError\<close>, and with
  the error itself otherwise. Whatever happens afterwards, a server that becomes
  ready included, the promise stays rejected: it is never fulfilled with an
  imposter.
\<close>

theorem bind_errors_reject_creation:
  "deferred s = Pending \<longrightarrow>
     (getProp e ''errno'' = Some (JStr ''EADDRINUSE'') \<longrightarrow>
        deferred (run (step s (DomainError e)) evs) =
          Rejected (ResourceConflictError
            (''Port '' @ template (getProp (creationRequest s) ''port'') @ '' is already in use'')))
   \<and> (getProp e ''errno'' = Some (JStr ''EACCES'') \<longrightarrow>
        deferred (run (step s (DomainError e)) evs) = Rejected InsufficientAccessError)
   \<and> (getProp e ''errno'' \<noteq> Some (JStr ''EADDRINUSE'')
        \<and> getProp e ''errno'' \<noteq> Some (JStr ''EACCES'') \<longrightarrow>
        deferred (run (step s (DomainError e)) evs) = Rejected (Opaque e))
   \<and> (\<forall>h. deferred (run (step s (DomainError e)) evs) \<noteq> Fulfilled h)"
proof
  assume p: "deferred s = Pending"
  let ?s1 = "step s (DomainError e)"
  have d: "deferred ?s1 =
     (if getProp e ''errno'' = Some (JStr ''EADDRINUSE'')
      then Rejected (ResourceConflictError
            (''Port '' @ template (getProp (creationRequest s) ''port'') @ '' is already in use''))
      else if getProp e ''errno'' = Some (JStr ''EACCES'') then Rejected InsufficientAccessError
      else Rejected (Opaque e))"
    using p by (simp add: createErrorHandler_def deferred_reject_def)
  then have "deferred ?s1 \<noteq> Pending" by (simp split: if_splits)
  then have r: "deferred (run ?s1 evs) = deferred ?s1" by (rule run_settled)
  show "(getProp e ''errno'' = Some (JStr ''EADDRINUSE'') \<longrightarrow>
        deferred (run (step s (DomainError e)) evs) =
          Rejected (ResourceConflictError
            (''Port '' @ template (getProp (creationRequest s) ''port'') @ '' is already in use'')))
   \<and> (getProp e ''errno'' = Some (JStr ''EACCES'') \<longrightarrow>
        deferred (run (step s (DomainError e)) evs) = Rejected InsufficientAccessError)
   \<and> (getProp e ''errno'' \<noteq> Some (JStr ''EADDRINUSE'')
        \<and> getProp e ''errno'' \<noteq> Some (JStr ''EACCES'') \<longrightarrow>
        deferred (run (step s (DomainError e)) evs) = Rejected (Opaque e))
   \<and> (\<forall>h. deferred (run (step s (DomainError e)) evs) \<noteq> Fulfilled h)"
    unfolding r d by simp
qed

theorem bind_errors_witness:
  "deferred (create [(''protocol'', JStr ''tcp''), (''port'', JNum 4545)] [] (\<lambda>a. [])) = Pending
   \<and> deferred
       (run (step (create [(''protocol'', JStr ''tcp''), (''port'', JNum 4545)] [] (\<lambda>a. []))
               (DomainError [(''errno'', JStr ''EADDRINUSE'')]))
          [ServerReady \<lparr>srv_port = JNum 4545, srv_metadata = []\<rparr>])
     = Rejected (ResourceConflictError ''Port 4545 is already in use'')"
proof -
  let ?s = "create [(''protocol'', JStr ''tcp''), (''port'', JNum 4545)] [] (\<lambda>a. [])"
  have p: "deferred ?s = Pending" by (simp add: create_def)
  have e: "getProp [(''errno'', JStr ''EADDRINUSE'')] ''errno'' = Some (JStr ''EADDRINUSE'')"
    by simp
  have t: "template (getProp (creationRequest ?s) ''port'') = ''4545''"
    by (simp add: create_def template_def string_of_int_def string_of_nat.simps)
  have "deferred (run (step ?s (DomainError [(''errno'', JStr ''EADDRINUSE'')]))
          [ServerReady \<lparr>srv_port = JNum 4545, srv_metadata = []\<rparr>]) =
        Rejected (ResourceConflictError
            (''Port '' @ template (getProp (creationRequest ?s) ''port'') @ '' is already in use''))"
    using bind_errors_reject_creation
            [of ?s "[(''errno'', JStr ''EADDRINUSE'')]"
                "[ServerReady \<lparr>srv_port = JNum 4545, srv_metadata = []\<rparr>]"] p e
    by blast
  then show ?thesis using p unfolding t by simp
qed

subsection \<open>Match recording\<close>

lemma resolved_ids:
  "pending (snd (resolved c r s)) = pending s \<and> nextPromise (snd (resolved c r s)) = nextPromise s"
  by (subst (1 2) resolved_frame) simp

lemma proxyResolved_ids:
  "pending (snd (proxyResolved r m s)) = pending s
   \<and> nextPromise (snd (proxyResolved r m s)) = nextPromise s"
  by (subst (1 2) proxyResolved_frame) simp

lemma toJSON_ids:
  "pending (snd (toJSON srv options snapshot s)) = pending s
   \<and> nextPromise (snd (toJSON srv options snapshot s)) = nextPromise s"
  by (subst (1 2) toJSON_frame) simp

lemma serverReady_ids:
  "pending (serverReady srv s) = pending s \<and> nextPromise (serverReady srv s) = nextPromise s"
  by (simp add: serverReady_def Let_def split: option.splits json.splits)

lemma settled_freshIds: "freshIds s \<Longrightarrow> freshIds (settled p outcome recordable bag s)"
  by (auto simp: freshIds_def settled_def Let_def resolved_ids proxyResolved_ids
        split: option.splits sum.splits pendingCall.splits)

lemma getResponseFor_freshIds:
  "freshIds s \<Longrightarrow> freshIds (snd (getResponseFor request now matched bag s))"
  by (auto simp: freshIds_def getResponseFor_def Let_def split: option.splits sum.splits)

lemma getProxyResponseFor_freshIds:
  "freshIds s \<Longrightarrow> freshIds (snd (getProxyResponseFor thrown s))"
  by (auto simp: freshIds_def getProxyResponseFor_def split: option.splits)

lemma step_freshIds: "freshIds s \<Longrightarrow> freshIds (step s ev)"
proof (cases ev)
  case (Settled p outcome recordable bag)
  assume "freshIds s"
  then show ?thesis using Settled by (simp add: settled_freshIds)
next
  case (GetResponseFor request now matched bag)
  assume "freshIds s"
  then show ?thesis using GetResponseFor by (simp add: getResponseFor_freshIds)
next
  case (GetProxyResponseFor thrown)
  assume "freshIds s"
  then show ?thesis using GetProxyResponseFor by (simp add: getProxyResponseFor_freshIds)
qed (simp_all add: freshIds_def serverReady_ids toJSON_ids stop_def split: option.splits)

lemma run_freshIds: "freshIds s \<Longrightarrow> freshIds (run s evs)"
  unfolding run_def
  by (induction evs arbitrary: s) (simp_all add: step_freshIds)

lemma fresh_lookup:
  "freshIds s \<Longrightarrow> map_of (pending s @ [(nextPromise s, w)]) (nextPromise s) = Some w"
proof -
  assume "freshIds s"
  then have "nextPromise s \<notin> fst ` set (pending s)" by (auto simp: freshIds_def)
  then have "map_of (pending s) (nextPromise s) = None" by (simp add: map_of_eq_None_iff)
  then show ?thesis by (simp add: map_add_def)
qed

lemma resolved_calls_cong:
  "config s1 = config s \<Longrightarrow> recordMatchCalls s1 = recordMatchCalls s \<Longrightarrow>
     recordMatchCalls (snd (resolved c r s1)) = recordMatchCalls (snd (resolved c r s))"
  by (simp add: resolved_def recordMatch_def split: sum.splits option.splits)

lemma proxyResolved_calls_cong:
  "config s1 = config s \<Longrightarrow> recordMatchCalls s1 = recordMatchCalls s \<Longrightarrow>
     recordMatchCalls (snd (proxyResolved r m s1)) = recordMatchCalls (snd (proxyResolved r m s))"
  by (simp add: proxyResolved_def)

lemma settled_resolution_calls:
  "map_of (pending s) p = Some (Resolution responseConfig) \<Longrightarrow>
     recordMatchCalls (settled p (Inr response) recordable bag s) =
       recordMatchCalls (snd (resolved responseConfig response s))"
proof -
  assume a: "map_of (pending s) p = Some (Resolution responseConfig)"
  let ?s1 = "s\<lparr>pending := filter (\<lambda>(q, w). q \<noteq> p) (pending s), imposterState := bag\<rparr>"
  have "recordMatchCalls (snd (resolved responseConfig response ?s1)) =
          recordMatchCalls (snd (resolved responseConfig response s))"
    by (rule resolved_calls_cong) simp_all
  then show ?thesis using a by (simp add: settled_def Let_def)
qed

lemma settled_proxy_calls:
  "map_of (pending s) p = Some ProxyResolution \<Longrightarrow>
     recordMatchCalls (settled p (Inr response) recordable bag s) =
       recordMatchCalls (snd (proxyResolved response recordable s))"
proof -
  assume a: "map_of (pending s) p = Some ProxyResolution"
  let ?s1 = "s\<lparr>pending := filter (\<lambda>(q, w). q \<noteq> p) (pending s), imposterState := bag\<rparr>"
  have "recordMatchCalls (snd (proxyResolved response recordable ?s1)) =
          recordMatchCalls (snd (proxyResolved response recordable s))"
    by (rule proxyResolved_calls_cong) simp_all
  then show ?thesis using a by (simp add: settled_def Let_def)
qed

lemma request_then_settled:
  assumes f: "freshIds s" and l: "server s \<noteq> None"
  shows "fst (getResponseFor request now (Inr responseConfig) bag0 s) = Inr (nextPromise s)
     \<and> recordMatchCalls
          (settled (nextPromise s) (Inr response) recordable bag
             (snd (getResponseFor request now (Inr responseConfig) bag0 s))) =
        recordMatchCalls (snd (resolved responseConfig response s))"
proof -
  let ?s1 = "snd (getResponseFor request now (Inr responseConfig) bag0 s)"
  let ?w = "Resolution responseConfig"
  have a: "fst (getResponseFor request now (Inr responseConfig) bag0 s) = Inr (nextPromise s)"
    using l by (auto simp: getResponseFor_def Let_def)
  have p: "pending ?s1 = pending s @ [(nextPromise s, ?w)]"
    and c: "config ?s1 = config s" and m: "recordMatchCalls ?s1 = recordMatchCalls s"
    using l by (auto simp: getResponseFor_def Let_def)
  have "map_of (pending ?s1) (nextPromise s) = Some ?w"
    unfolding p using f by (rule fresh_lookup)
  then have "recordMatchCalls (settled (nextPromise s) (Inr response) recordable bag ?s1) =
               recordMatchCalls (snd (resolved responseConfig response ?s1))"
    by (rule settled_resolution_calls)
  then show ?thesis using a resolved_calls_cong [OF c m] by simp
qed

lemma proxy_then_settled:
  assumes f: "freshIds s" and l: "server s \<noteq> None"
  shows "fst (getProxyResponseFor None s) = Inr (nextPromise s)
     \<and> recordMatchCalls
          (settled (nextPromise s) (Inr response) recordable bag
             (snd (getProxyResponseFor None s))) =
        recordMatchCalls (snd (proxyResolved response recordable s))"
proof -
  let ?s1 = "snd (getProxyResponseFor None s)"
  have a: "fst (getProxyResponseFor None s) = Inr (nextPromise s)"
    using l by (auto simp: getProxyResponseFor_def)
  have p: "pending ?s1 = pending s @ [(nextPromise s, ProxyResolution)]"
    and c: "config ?s1 = config s" and m: "recordMatchCalls ?s1 = recordMatchCalls s"
    using l by (auto simp: getProxyResponseFor_def)
  have "map_of (pending ?s1) (nextPromise s) = Some ProxyResolution"
    unfolding p using f by (rule fresh_lookup)
  then have "recordMatchCalls (settled (nextPromise s) (Inr response) recordable bag ?s1) =
               recordMatchCalls (snd (proxyResolved response recordable ?s1))"
    by (rule settled_proxy_calls)
  then show ?thesis using a proxyResolved_calls_cong [OF c m] by simp
qed

lemma resolved_wrapped:
  "truthy_opt (getProp (config s) ''recordMatches'') \<Longrightarrow> field response ''proxy'' = Inr None \<Longrightarrow>
   field response ''response'' = Inr (Some inner) \<Longrightarrow> truthy inner \<Longrightarrow>
     resolved responseConfig response s =
       (Inr response,
        s\<lparr>recordMatchCalls := recordMatchCalls s @ [ConfigRecordMatch responseConfig inner]\<rparr>)"
  by (simp add: resolved_def recordMatch_def truthy_opt_def)

lemma resolved_plain:
  "truthy_opt (getProp (config s) ''recordMatches'') \<Longrightarrow> field response ''proxy'' = Inr None \<Longrightarrow>
   field response ''response'' = Inr None \<Longrightarrow>
     resolved responseConfig response s =
       (Inr response,
        s\<lparr>recordMatchCalls := recordMatchCalls s @ [ConfigRecordMatch responseConfig response]\<rparr>)"
  by (simp add: resolved_def recordMatch_def truthy_opt_def)

lemma resolved_once:
  "truthy_opt (getProp (config s) ''recordMatches'') \<Longrightarrow> field response ''proxy'' = Inr None \<Longrightarrow>
     \<exists>c. recordMatchCalls (snd (resolved responseConfig response s)) = recordMatchCalls s @ [c]"
  by (auto simp: resolved_def recordMatch_def truthy_opt_def split: sum.splits option.splits)

lemma resolution_recorded:
  assumes r: "resolved responseConfig response s =
      (Inr response, s\<lparr>recordMatchCalls := recordMatchCalls s @ [c]\<rparr>)"
  shows "(map_of (pending s) p = Some (Resolution responseConfig) \<longrightarrow>
            recordMatchCalls (settled p (Inr response) recordable bag s) = recordMatchCalls s @ [c])
       \<and> (freshIds s \<and> server s \<noteq> None \<longrightarrow>
            fst (getResponseFor request now (Inr responseConfig) bag0 s) = Inr (nextPromise s)
            \<and> recordMatchCalls
                 (settled (nextPromise s) (Inr response) recordable bag
                    (snd (getResponseFor request now (Inr responseConfig) bag0 s))) =
               recordMatchCalls s @ [c])"
proof -
  have c: "recordMatchCalls (snd (resolved responseConfig response s)) = recordMatchCalls s @ [c]"
    by (simp add: r)
  have a: "map_of (pending s) p = Some (Resolution responseConfig) \<longrightarrow>
            recordMatchCalls (settled p (Inr response) recordable bag s) = recordMatchCalls s @ [c]"
    by (simp add: settled_resolution_calls c)
  have b: "freshIds s \<and> server s \<noteq> None \<longrightarrow>
            fst (getResponseFor request now (Inr responseConfig) bag0 s) = Inr (nextPromise s)
            \<and> recordMatchCalls
                 (settled (nextPromise s) (Inr response) recordable bag
                    (snd (getResponseFor request now (Inr responseConfig) bag0 s))) =
               recordMatchCalls s @ [c]"
    by (simp add: request_then_settled c)
  show ?thesis using a b by (rule conjI)
qed

lemma proxy_recorded:
  assumes r: "proxyResolved response recordable s =
      (Inr response, s\<lparr>recordMatchCalls := recordMatchCalls s @ [c]\<rparr>)"
  shows "(map_of (pending s) p = Some ProxyResolution \<longrightarrow>
            recordMatchCalls (settled p (Inr response) recordable bag s) = recordMatchCalls s @ [c])
       \<and> (freshIds s \<and> server s \<noteq> None \<longrightarrow>
            fst (getProxyResponseFor None s) = Inr (nextPromise s)
            \<and> recordMatchCalls
                 (settled (nextPromise s) (Inr response) recordable bag
                    (snd (getProxyResponseFor None s))) =
               recordMatchCalls s @ [c])"
proof -
  have c: "recordMatchCalls (snd (proxyResolved response recordable s)) = recordMatchCalls s @ [c]"
    by (simp add: r)
  have a: "map_of (pending s) p = Some ProxyResolution \<longrightarrow>
            recordMatchCalls (settled p (Inr response) recordable bag s) = recordMatchCalls s @ [c]"
    by (simp add: settled_proxy_calls c)
  have b: "freshIds s \<and> server s \<noteq> None \<longrightarrow>
            fst (getProxyResponseFor None s) = Inr (nextPromise s)
            \<and> recordMatchCalls
                 (settled (nextPromise s) (Inr response) recordable bag
                    (snd (getProxyResponseFor None s))) =
               recordMatchCalls s @ [c]"
    by (simp add: proxy_then_settled c)
  show ?thesis using a b by (rule conjI)
qed

text \<open>
  C4. With the \<^verbatim>\<open>recordMatches\<close> option truthy. When the promise of a
  request is fulfilled with a response that has no \<^verbatim>\<open>proxy\<close> property, the
  callback returns that response and calls \<^verbatim>\<open>recordMatch\<close> exactly once,
  on the response configuration matched for that request: with the inner
  \<^verbatim>\<open>response.response\<close> when that is there and truthy (every object is),
  with the response itself when there is no such property. When the promise of
  \<^verbatim>\<open>getProxyResponseFor\<close> is fulfilled with a value
  \<^verbatim>\<open>recordMatch\<close> can be called on, the callback returns that value and calls
  its \<^verbatim>\<open>recordMatch\<close> exactly once, with no unwrapping; on any other value
  the call throws, the completion fails and nothing is recorded, so every
  completion that succeeds has recorded exactly one match. Both hold from the call
  of \<^verbatim>\<open>getResponseFor\<close> or \<^verbatim>\<open>getProxyResponseFor\<close> on a listening
  imposter to the settlement of the promise that call returned; the numbers of
  pending promises are fresh in every state an imposter reaches.
\<close>

theorem matches_recorded_once:
  "freshIds (run (create creq cfg objects) evs)
   \<and> (truthy_opt (getProp (config s) ''recordMatches'') \<longrightarrow>
       (field response ''proxy'' = Inr None \<longrightarrow>
          (\<forall>inner. field response ''response'' = Inr (Some inner) \<and> truthy inner \<longrightarrow>
             resolved responseConfig response s =
               (Inr response,
                s\<lparr>recordMatchCalls :=
                     recordMatchCalls s @ [ConfigRecordMatch responseConfig inner]\<rparr>)
             \<and> (map_of (pending s) p = Some (Resolution responseConfig) \<longrightarrow>
                  recordMatchCalls (settled p (Inr response) recordable bag s) =
                    recordMatchCalls s @ [ConfigRecordMatch responseConfig inner])
             \<and> (freshIds s \<and> server s \<noteq> None \<longrightarrow>
                  fst (getResponseFor request now (Inr responseConfig) bag0 s)
                    = Inr (nextPromise s)
                  \<and> recordMatchCalls
                       (settled (nextPromise s) (Inr response) recordable bag
                          (snd (getResponseFor request now (Inr responseConfig) bag0 s))) =
                     recordMatchCalls s @ [ConfigRecordMatch responseConfig inner]))
          \<and> (field response ''response'' = Inr None \<longrightarrow>
             resolved responseConfig response s =
               (Inr response,
                s\<lparr>recordMatchCalls :=
                     recordMatchCalls s @ [ConfigRecordMatch responseConfig response]\<rparr>)
             \<and> (map_of (pending s) p = Some (Resolution responseConfig) \<longrightarrow>
                  recordMatchCalls (settled p (Inr response) recordable bag s) =
                    recordMatchCalls s @ [ConfigRecordMatch responseConfig response])
             \<and> (freshIds s \<and> server s \<noteq> None \<longrightarrow>
                  fst (getResponseFor request now (Inr responseConfig) bag0 s)
                    = Inr (nextPromise s)
                  \<and> recordMatchCalls
                       (settled (nextPromise s) (Inr response) recordable bag
                          (snd (getResponseFor request now (Inr responseConfig) bag0 s))) =
                     recordMatchCalls s @ [ConfigRecordMatch responseConfig response]))
          \<and> (\<exists>c. recordMatchCalls (snd (resolved responseConfig response s)) =
                    recordMatchCalls s @ [c]))
       \<and> (canRecordMatch response recordable \<longrightarrow>
            proxyResolved response recordable s =
              (Inr response,
               s\<lparr>recordMatchCalls := recordMatchCalls s @ [ResponseRecordMatch response]\<rparr>)
            \<and> (map_of (pending s) p = Some ProxyResolution \<longrightarrow>
                 recordMatchCalls (settled p (Inr response) recordable bag s) =
                   recordMatchCalls s @ [ResponseRecordMatch response])
            \<and> (freshIds s \<and> server s \<noteq> None \<longrightarrow>
                 fst (getProxyResponseFor None s) = Inr (nextPromise s)
                 \<and> recordMatchCalls
                      (settled (nextPromise s) (Inr response) recordable bag
                         (snd (getProxyResponseFor None s))) =
                    recordMatchCalls s @ [ResponseRecordMatch response]))
       \<and> (\<not> canRecordMatch response recordable \<longrightarrow>
            proxyResolved response recordable s = (Inl TypeError, s))
       \<and> (\<forall>x s'. proxyResolved response recordable s = (Inr x, s') \<longrightarrow>
            x = response
            \<and> s' = s\<lparr>recordMatchCalls :=
                       recordMatchCalls s @ [ResponseRecordMatch response]\<rparr>))"
  (is "?F \<and> (?on \<longrightarrow> (?px \<longrightarrow> ?W \<and> ?P \<and> ?O) \<and> (?can \<longrightarrow> ?B1) \<and> (?ncan \<longrightarrow> ?B2) \<and> ?B3)")
proof (rule conjI)
  show ?F by (rule run_freshIds) (simp add: freshIds_def create_def)
next
  show "?on \<longrightarrow> (?px \<longrightarrow> ?W \<and> ?P \<and> ?O) \<and> (?can \<longrightarrow> ?B1) \<and> (?ncan \<longrightarrow> ?B2) \<and> ?B3"
  proof (rule impI)
    assume on: ?on
    have a: "?px \<longrightarrow> ?W \<and> ?P \<and> ?O"
    proof (rule impI)
      assume px: ?px
      have W: ?W
      proof (intro allI impI)
        fix inner
        assume w: "field response ''response'' = Inr (Some inner) \<and> truthy inner"
        have r: "resolved responseConfig response s =
               (Inr response,
                s\<lparr>recordMatchCalls :=
                     recordMatchCalls s @ [ConfigRecordMatch responseConfig inner]\<rparr>)"
          using on px w by (simp add: resolved_wrapped)
        show "resolved responseConfig response s =
               (Inr response,
                s\<lparr>recordMatchCalls :=
                     recordMatchCalls s @ [ConfigRecordMatch responseConfig inner]\<rparr>)
             \<and> (map_of (pending s) p = Some (Resolution responseConfig) \<longrightarrow>
                  recordMatchCalls (settled p (Inr response) recordable bag s) =
                    recordMatchCalls s @ [ConfigRecordMatch responseConfig inner])
             \<and> (freshIds s \<and> server s \<noteq> None \<longrightarrow>
                  fst (getResponseFor request now (Inr responseConfig) bag0 s)
                    = Inr (nextPromise s)
                  \<and> recordMatchCalls
                       (settled (nextPromise s) (Inr response) recordable bag
                          (snd (getResponseFor request now (Inr responseConfig) bag0 s))) =
                     recordMatchCalls s @ [ConfigRecordMatch responseConfig inner])"
          using r resolution_recorded [OF r] by (rule conjI)
      qed
      have P: ?P
      proof (rule impI)
        assume w: "field response ''response'' = Inr None"
        have r: "resolved responseConfig response s =
               (Inr response,
                s\<lparr>recordMatchCalls :=
                     recordMatchCalls s @ [ConfigRecordMatch responseConfig response]\<rparr>)"
          using on px w by (simp add: resolved_plain)
        show "resolved responseConfig response s =
               (Inr response,
                s\<lparr>recordMatchCalls :=
                     recordMatchCalls s @ [ConfigRecordMatch responseConfig response]\<rparr>)
             \<and> (map_of (pending s) p = Some (Resolution responseConfig) \<longrightarrow>
                  recordMatchCalls (settled p (Inr response) recordable bag s) =
                    recordMatchCalls s @ [ConfigRecordMatch responseConfig response])
             \<and> (freshIds s \<and> server s \<noteq> None \<longrightarrow>
                  fst (getResponseFor request now (Inr responseConfig) bag0 s)
                    = Inr (nextPromise s)
                  \<and> recordMatchCalls
                       (settled (nextPromise s) (Inr response) recordable bag
                          (snd (getResponseFor request now (Inr responseConfig) bag0 s))) =
                     recordMatchCalls s @ [ConfigRecordMatch responseConfig response])"
          using r resolution_recorded [OF r] by (rule conjI)
      qed
      have O: ?O using on px by (rule resolved_once)
      show "?W \<and> ?P \<and> ?O" by (intro conjI) (rule W, rule P, rule O)
    qed
    have b1: "?can \<longrightarrow> ?B1"
    proof (rule impI)
      assume m: ?can
      have r: "proxyResolved response recordable s =
              (Inr response,
               s\<lparr>recordMatchCalls := recordMatchCalls s @ [ResponseRecordMatch response]\<rparr>)"
        using on m by (simp add: proxyResolved_def)
      show ?B1 using r proxy_recorded [OF r] by (rule conjI)
    qed
    have b2: "?ncan \<longrightarrow> ?B2"
      using on by (simp add: proxyResolved_def)
    have b3: ?B3
      using on by (auto simp: proxyResolved_def split: if_splits)
    show "(?px \<longrightarrow> ?W \<and> ?P \<and> ?O) \<and> (?can \<longrightarrow> ?B1) \<and> (?ncan \<longrightarrow> ?B2) \<and> ?B3"
      by (intro conjI) (rule a, rule b1, rule b2, rule b3)
  qed
qed

theorem matches_recorded_once_witness:
  "recordMatchCalls
     (settled 0 (Inr (JObj [(''response'', JObj [(''data'', JStr ''pong'')])])) False []
        (snd (getResponseFor [(''data'', JStr ''ping'')] ''2026-01-01T00:00:00.000Z''
                (Inr 7) []
                (run (create [(''protocol'', JStr ''tcp'')] [(''recordMatches'', JBool True)]
                        (\<lambda>a. []))
                   [ServerReady \<lparr>srv_port = JNum 6000, srv_metadata = []\<rparr>]))))
     = [ConfigRecordMatch 7 (JObj [(''data'', JStr ''pong'')])]
   \<and> recordMatchCalls
       (settled 0 (Inr (JObj [(''data'', JStr ''proxied'')])) True []
          (snd (getProxyResponseFor None
                  (run (create [(''protocol'', JStr ''tcp'')] [(''recordMatches'', JBool True)]
                          (\<lambda>a. []))
                     [ServerReady \<lparr>srv_port = JNum 6000, srv_metadata = []\<rparr>]))))
     = [ResponseRecordMatch (JObj [(''data'', JStr ''proxied'')])]
   \<and> fst (proxyResolved JNull True
            (run (create [(''protocol'', JStr ''tcp'')] [(''recordMatches'', JBool True)]
                    (\<lambda>a. []))
               [ServerReady \<lparr>srv_port = JNum 6000, srv_metadata = []\<rparr>]))
     = Inl TypeError"
proof -
  let ?creq = "[(''protocol'', JStr ''tcp'')]"
  let ?cfg = "[(''recordMatches'', JBool True)]"
  let ?evs = "[ServerReady \<lparr>srv_port = JNum 6000, srv_metadata = []\<rparr>]"
  let ?s = "run (create ?creq ?cfg (\<lambda>a. [])) ?evs"
  let ?inner = "JObj [(''data'', JStr ''pong'')]"
  let ?response = "JObj [(''response'', ?inner)]"
  let ?proxied = "JObj [(''data'', JStr ''proxied'')]"
  have s: "config ?s = ?cfg \<and> server ?s \<noteq> None \<and> nextPromise ?s = 0
           \<and> recordMatchCalls ?s = []"
    by (simp add: run_def create_def serverReady_def Let_def deferred_resolve_def)
  have on: "truthy_opt (getProp (config ?s) ''recordMatches'')"
    using s by (simp add: truthy_opt_def)
  have sv: "server ?s \<noteq> None" using s by simp
  have px: "field ?response ''proxy'' = Inr None" by simp
  have w: "field ?response ''response'' = Inr (Some ?inner) \<and> truthy ?inner" by simp
  have m: "canRecordMatch ?proxied True" by (simp add: canRecordMatch_def)
  have n: "\<not> canRecordMatch JNull True" by (simp add: canRecordMatch_def)
  note t1 = matches_recorded_once
      [where creq = ?creq and cfg = ?cfg and objects = "\<lambda>a. []" and evs = ?evs and s = ?s
         and response = ?response and responseConfig = 7 and recordable = False
         and bag = "[]" and request = "[(''data'', JStr ''ping'')]"
         and now = "''2026-01-01T00:00:00.000Z''" and bag0 = "[]"]
  note t2 = matches_recorded_once
      [where creq = ?creq and cfg = ?cfg and objects = "\<lambda>a. []" and evs = ?evs and s = ?s
         and response = ?proxied and recordable = True and bag = "[]"]
  note t3 = matches_recorded_once
      [where creq = ?creq and cfg = ?cfg and objects = "\<lambda>a. []" and evs = ?evs and s = ?s
         and response = JNull and recordable = True]
  have fr: "freshIds ?s" using t1 by (rule conjunct1)
  have a: "recordMatchCalls
             (settled (nextPromise ?s) (Inr ?response) False []
                (snd (getResponseFor [(''data'', JStr ''ping'')] ''2026-01-01T00:00:00.000Z''
                        (Inr 7) [] ?s))) =
           recordMatchCalls ?s @ [ConfigRecordMatch 7 ?inner]"
    using t1 on px w fr sv by blast
  have b: "recordMatchCalls
             (settled (nextPromise ?s) (Inr ?proxied) True [] (snd (getProxyResponseFor None ?s))) =
           recordMatchCalls ?s @ [ResponseRecordMatch ?proxied]"
    using t2 on m fr sv by blast
  have c: "proxyResolved JNull True ?s = (Inl TypeError, ?s)"
    using t3 on n by blast
  show ?thesis using a b c s by simp
qed

subsection \<open>The record before the transforms\<close>

lemma getProp_fold_metadata:
  "getProp (fold (\<lambda>key r. setProp r key (optVal (getProp m key))) ks r0) k =
     (if k \<in> set ks then Some (optVal (getProp m k)) else getProp r0 k)"
  by (induction ks arbitrary: r0) (auto simp: getProp_setProp)

lemma getProp_None_iff: "(getProp ps k = None) = (k \<notin> set (objectKeys ps))"
  by (induction ps) (auto simp: objectKeys_def split: if_splits)

lemma optVal_Some: "optVal (Some v) = Val v"
  by (simp add: optVal_def)

lemma getProp_listed:
  "truthy_opt (getProp (optionsOrEmpty options) ''list'') \<Longrightarrow>
     resultWithLinks srv options snapshot s =
       [(''protocol'', optVal (getProp (creationRequest s) ''protocol'')),
        (''port'', Val (srv_port srv)),
        (''numberOfRequests'', Val (JNum (numberOfRequests s))),
        (''_links'', Val (JObj [(''self'',
              JObj [(''href'', JStr (''/imposters/'' @ js_string (srv_port srv)))])]))]"
  by (simp add: resultWithLinks_def)

lemma getProp_detailed:
  "\<not> truthy_opt (getProp (optionsOrEmpty options) ''list'') \<Longrightarrow>
     getProp (resultWithLinks srv options snapshot s) k =
       (if k = ''_links''
        then Some (Val (JObj [(''self'',
               JObj [(''href'', JStr (''/imposters/'' @ js_string (srv_port srv)))])]))
        else if k = ''stubs'' then Some (StubRefs snapshot)
        else if k = ''requests'' then Some RequestsRef
        else case getProp (metadata s) k of
               Some v \<Rightarrow> Some (Val v)
             | None \<Rightarrow>
                 if k = ''recordRequests''
                 then Some (Val (JBool (truthy_opt (getProp (creationRequest s) ''recordRequests''))))
                 else if k = ''name'' \<and> truthy_opt (getProp (creationRequest s) ''name'')
                 then Some (optVal (getProp (creationRequest s) ''name''))
                 else getProp [(''protocol'', optVal (getProp (creationRequest s) ''protocol'')),
                               (''port'', Val (srv_port srv)),
                               (''numberOfRequests'', Val (JNum (numberOfRequests s)))] k)"
proof -
  assume l: "\<not> truthy_opt (getProp (optionsOrEmpty options) ''list'')"
  have m: "k \<in> set (objectKeys (metadata s)) = (getProp (metadata s) k \<noteq> None)"
    by (simp add: getProp_None_iff)
  show ?thesis
  proof (cases "getProp (metadata s) k")
    case None
    then show ?thesis using l m
      by (simp add: resultWithLinks_def addDetailsTo_def Let_def getProp_setProp
            getProp_fold_metadata)
  next
    case (Some v)
    then show ?thesis using l m
      by (simp add: resultWithLinks_def addDetailsTo_def Let_def getProp_setProp
            getProp_fold_metadata optVal_Some)
  qed
qed

subsection \<open>The two transforms\<close>

lemma removeNonEssential_Inr:
  "removeNonEssentialInformationFrom r s = (Inr r', s') \<Longrightarrow>
     \<exists>refs. getProp r ''stubs'' = Some (StubRefs refs)
       \<and> forEachStub withoutMatches refs (stubObjects s) = (None, stubObjects s')
       \<and> r' = deleteProp (deleteProp (deleteProp r ''numberOfRequests'') ''requests'') ''_links''"
  by (auto simp: removeNonEssentialInformationFrom_def
        split: option.splits rvalue.splits prod.splits)

lemma removeProxies_Inr:
  "removeProxiesFrom r s = (Inr r', s') \<Longrightarrow>
     \<exists>refs. getProp r ''stubs'' = Some (StubRefs refs)
       \<and> forEachStub withoutProxies refs (stubObjects s) = (None, stubObjects s')
       \<and> r' = setProp r ''stubs''
                 (StubRefs (filter (\<lambda>a. hasResponses (stubObjects s' a)) refs))"
  by (auto simp: removeProxiesFrom_def split: option.splits rvalue.splits prod.splits)






lemma withoutProxyResponseTime_other:
  "withoutProxyResponseTime r = Inr r' \<Longrightarrow> k \<noteq> ''is'' \<Longrightarrow> field r' k = field r k"
  by (cases r)
     (auto simp: getProp_setProp split: option.splits json.splits if_splits)

lemma withoutProxyResponseTime_body:
  "withoutProxyResponseTime r = Inr r' \<Longrightarrow> field r' ''is'' = Inr (Some (JObj body')) \<Longrightarrow>
     \<exists>body. field r ''is'' = Inr (Some (JObj body))
       \<and> (\<forall>k. k \<noteq> ''_proxyResponseTime'' \<longrightarrow> getProp body' k = getProp body k)"
  by (cases r)
     (auto simp: getProp_setProp getProp_deleteProp
        split: option.splits json.splits if_splits)




lemma filterResponses_total:
  "filterResponses rs = Inr rs' \<Longrightarrow> r \<in> set rs \<Longrightarrow> \<exists>p. hasOwnProxy r = Inr p"
  by (induction rs arbitrary: rs') (auto split: sum.splits)


lemma toJSON_Inr:
  assumes "toJSON srv options snapshot s = (Inr r, s')"
  shows "\<exists>rA sA.
      (if truthy_opt (getProp (optionsOrEmpty options) ''replayable'')
       then removeNonEssentialInformationFrom (resultWithLinks srv options snapshot s) s
              = (Inr rA, sA)
       else rA = resultWithLinks srv options snapshot s \<and> sA = s)
    \<and> (if truthy_opt (getProp (optionsOrEmpty options) ''removeProxies'')
       then removeProxiesFrom rA sA = (Inr r, s')
       else r = rA \<and> s' = sA)"
  using assms
  by (auto simp: toJSON_def split: if_splits prod.splits sum.splits)

lemma listed_has_no_stubs:
  "truthy_opt (getProp (optionsOrEmpty options) ''list'') \<Longrightarrow>
     getProp (resultWithLinks srv options snapshot s) ''stubs'' = None"
  by (simp add: getProp_listed)

lemma toJSON_listed:
  assumes t: "toJSON srv options snapshot s = (Inr r, s')"
    and l: "truthy_opt (getProp (optionsOrEmpty options) ''list'')"
  shows "r = resultWithLinks srv options snapshot s \<and> s' = s
         \<and> \<not> truthy_opt (getProp (optionsOrEmpty options) ''replayable'')
         \<and> \<not> truthy_opt (getProp (optionsOrEmpty options) ''removeProxies'')"
proof -
  let ?R = "resultWithLinks srv options snapshot s"
  have n: "getProp ?R ''stubs'' = None" using l by (rule listed_has_no_stubs)
  have a: "removeNonEssentialInformationFrom ?R s = (Inl TypeError, s)"
    using n by (simp add: removeNonEssentialInformationFrom_def)
  have b: "removeProxiesFrom ?R s = (Inl TypeError, s)"
    using n by (simp add: removeProxiesFrom_def)
  show ?thesis using t a b
    by (auto simp: toJSON_def split: if_splits)
qed

lemma toJSON_getProp:
  assumes t: "toJSON srv options snapshot s = (Inr r, s')"
    and k: "k \<noteq> ''stubs''"
  shows "getProp r k =
     (if truthy_opt (getProp (optionsOrEmpty options) ''replayable'')
         \<and> (k = ''numberOfRequests'' \<or> k = ''requests'' \<or> k = ''_links'')
      then None else getProp (resultWithLinks srv options snapshot s) k)"
proof -
  let ?R = "resultWithLinks srv options snapshot s"
  obtain rA sA where
    a: "if truthy_opt (getProp (optionsOrEmpty options) ''replayable'')
        then removeNonEssentialInformationFrom ?R s = (Inr rA, sA)
        else rA = ?R \<and> sA = s"
    and b: "if truthy_opt (getProp (optionsOrEmpty options) ''removeProxies'')
        then removeProxiesFrom rA sA = (Inr r, s') else r = rA \<and> s' = sA"
    using toJSON_Inr [OF t] by blast
  have rA: "getProp rA k =
     (if truthy_opt (getProp (optionsOrEmpty options) ''replayable'')
         \<and> (k = ''numberOfRequests'' \<or> k = ''requests'' \<or> k = ''_links'')
      then None else getProp ?R k)"
  proof (cases "truthy_opt (getProp (optionsOrEmpty options) ''replayable'')")
    case True
    then have "rA = deleteProp (deleteProp (deleteProp ?R ''numberOfRequests'') ''requests'')
                      ''_links''"
      using a removeNonEssential_Inr by fastforce
    then show ?thesis using True by (simp add: getProp_deleteProp)
  next
    case False
    then show ?thesis using a by simp
  qed
  have "getProp r k = getProp rA k"
  proof (cases "truthy_opt (getProp (optionsOrEmpty options) ''removeProxies'')")
    case True
    then obtain refs where "r = setProp rA ''stubs''
        (StubRefs (filter (\<lambda>a. hasResponses (stubObjects s' a)) refs))"
      using b removeProxies_Inr by fastforce
    then show ?thesis using k by (simp add: getProp_setProp)
  next
    case False
    then show ?thesis using b by simp
  qed
  then show ?thesis using rA by simp
qed

lemma removeNonEssential_addresses:
  "getProp r ''stubs'' = Some (StubRefs refs) \<or> getProp r ''stubs'' = None \<Longrightarrow>
     a \<notin> set refs \<Longrightarrow>
     stubObjects (snd (removeNonEssentialInformationFrom r s)) a = stubObjects s a"
  using forEachStub_frame [of a refs withoutMatches "stubObjects s"]
  by (auto simp: removeNonEssentialInformationFrom_def split: prod.splits option.splits)

lemma removeProxies_addresses:
  "getProp r ''stubs'' = Some (StubRefs refs) \<or> getProp r ''stubs'' = None \<Longrightarrow>
     a \<notin> set refs \<Longrightarrow>
     stubObjects (snd (removeProxiesFrom r s)) a = stubObjects s a"
  using forEachStub_frame [of a refs withoutProxies "stubObjects s"]
  by (auto simp: removeProxiesFrom_def split: prod.splits option.splits)

lemma resultWithLinks_stubs:
  "getProp (resultWithLinks srv options snapshot s) ''stubs'' = Some (StubRefs snapshot)
   \<or> getProp (resultWithLinks srv options snapshot s) ''stubs'' = None"
  by (cases "truthy_opt (getProp (optionsOrEmpty options) ''list'')")
     (simp_all add: getProp_listed getProp_detailed)

lemma toJSON_addresses:
  assumes a: "a \<notin> set snapshot"
  shows "stubObjects (snd (toJSON srv options snapshot s)) a = stubObjects s a"
proof -
  let ?R = "resultWithLinks srv options snapshot s"
  let ?A = "if truthy_opt (getProp (optionsOrEmpty options) ''replayable'')
            then removeNonEssentialInformationFrom ?R s else (Inr ?R, s)"
  obtain x sA where A: "?A = (x, sA)" by fastforce
  have sA: "stubObjects sA a = stubObjects s a"
    using A removeNonEssential_addresses [OF resultWithLinks_stubs a, of srv options s s]
    by (auto split: if_splits)
  show ?thesis
  proof (cases x)
    case (Inl e)
    then show ?thesis using A sA by (simp add: toJSON_def)
  next
    case (Inr rA)
    have st: "getProp rA ''stubs'' = Some (StubRefs snapshot) \<or> getProp rA ''stubs'' = None"
    proof (cases "truthy_opt (getProp (optionsOrEmpty options) ''replayable'')")
      case True
      then have "rA = deleteProp (deleteProp (deleteProp ?R ''numberOfRequests'') ''requests'')
                      ''_links''"
        using A Inr removeNonEssential_Inr by fastforce
      then show ?thesis using resultWithLinks_stubs [of srv options snapshot s]
        by (simp add: getProp_deleteProp)
    next
      case False
      then have "rA = ?R" using A Inr by auto
      then show ?thesis using resultWithLinks_stubs [of srv options snapshot s] by simp
    qed
    show ?thesis using A Inr sA removeProxies_addresses [OF st a, of sA]
      by (simp add: toJSON_def)
  qed
qed

lemma toJSON_no_transform:
  "\<not> truthy_opt (getProp (optionsOrEmpty options) ''replayable'') \<Longrightarrow>
   \<not> truthy_opt (getProp (optionsOrEmpty options) ''removeProxies'') \<Longrightarrow>
     snd (toJSON srv options snapshot s) = s"
  by (simp add: toJSON_def)

lemma toJSON_listed_state:
  assumes l: "truthy_opt (getProp (optionsOrEmpty options) ''list'')"
  shows "snd (toJSON srv options snapshot s) = s"
proof -
  let ?R = "resultWithLinks srv options snapshot s"
  have n: "getProp ?R ''stubs'' = None" using l by (rule listed_has_no_stubs)
  have a: "removeNonEssentialInformationFrom ?R s = (Inl TypeError, s)"
    using n by (simp add: removeNonEssentialInformationFrom_def)
  have b: "removeProxiesFrom ?R s = (Inl TypeError, s)"
    using n by (simp add: removeProxiesFrom_def)
  show ?thesis using a b by (simp add: toJSON_def)
qed

subsection \<open>Serialization and the state\<close>

text \<open>
  C5, as amended. \<^verbatim>\<open>toJSON\<close> leaves the request counter, the recorded-request
  log and the state bag as they are, and every other part of the state but the
  store of stub objects; in that store it writes only to the objects of the array
  \<^verbatim>\<open>stubs.stubs()\<close> returned, and to none at all when neither
  \<^verbatim>\<open>replayable\<close> nor \<^verbatim>\<open>removeProxies\<close> is asked for, or when
  \<^verbatim>\<open>list\<close> is. The two transforms make no copy: they update the objects of
  that array where they are, so the stub store keeps its contents only if
  \<^verbatim>\<open>stubs.stubs()\<close> hands out copies.
\<close>

theorem toJSON_writes_only_snapshot_stubs:
  "numberOfRequests (snd (toJSON srv options snapshot s)) = numberOfRequests s
   \<and> requests (snd (toJSON srv options snapshot s)) = requests s
   \<and> imposterState (snd (toJSON srv options snapshot s)) = imposterState s
   \<and> snd (toJSON srv options snapshot s) =
        s\<lparr>stubObjects := stubObjects (snd (toJSON srv options snapshot s))\<rparr>
   \<and> (\<forall>a. a \<notin> set snapshot \<longrightarrow>
         stubObjects (snd (toJSON srv options snapshot s)) a = stubObjects s a)
   \<and> (\<not> truthy_opt (getProp (optionsOrEmpty options) ''replayable'')
        \<and> \<not> truthy_opt (getProp (optionsOrEmpty options) ''removeProxies'') \<longrightarrow>
         snd (toJSON srv options snapshot s) = s)
   \<and> (truthy_opt (getProp (optionsOrEmpty options) ''list'') \<longrightarrow>
         snd (toJSON srv options snapshot s) = s)"
proof -
  have "imposterState (snd (toJSON srv options snapshot s)) = imposterState s"
    by (subst toJSON_frame) simp
  then show ?thesis
    using toJSON_counter [of srv options snapshot s] toJSON_requests [of srv options snapshot s]
      toJSON_frame [of srv options snapshot s] toJSON_addresses [of _ snapshot srv options s]
      toJSON_no_transform [of options srv snapshot s]
      toJSON_listed_state [of options srv snapshot s]
    by blast
qed

theorem toJSON_writes_only_snapshot_stubs_witness:
  "(1::nat) \<notin> set [0]
   \<and> stubObjects
        (snd (toJSON \<lparr>srv_port = JNum 4545, srv_metadata = []\<rparr>
                (Some (JObj [(''replayable'', JBool True)])) [0]
                (create [(''protocol'', JStr ''http'')] []
                   (\<lambda>a. [(''responses'', JArr []), (''matches'', JArr [JObj []])])))) 1
     = [(''responses'', JArr []), (''matches'', JArr [JObj []])]"
proof -
  let ?s = "create [(''protocol'', JStr ''http'')] []
              (\<lambda>a. [(''responses'', JArr []), (''matches'', JArr [JObj []])])"
  have h: "(1::nat) \<notin> set [0]" by simp
  have "stubObjects
          (snd (toJSON \<lparr>srv_port = JNum 4545, srv_metadata = []\<rparr>
                  (Some (JObj [(''replayable'', JBool True)])) [0] ?s)) 1 = stubObjects ?s 1"
    using toJSON_writes_only_snapshot_stubs
            [of "\<lparr>srv_port = JNum 4545, srv_metadata = []\<rparr>"
                "Some (JObj [(''replayable'', JBool True)])" "[0]" ?s] h
    by blast
  then show ?thesis by (simp add: create_def)
qed

text \<open>
  The claim as stated fails: with \<^verbatim>\<open>replayable\<close> and \<^verbatim>\<open>removeProxies\<close>,
  the stub object at address 0, which the array of \<^verbatim>\<open>stubs.stubs()\<close> refers
  to, has lost its match history, its proxy response and the
  \<^verbatim>\<open>_proxyResponseTime\<close> of its literal response once \<^verbatim>\<open>toJSON\<close> has
  returned.
\<close>

theorem toJSON_updates_snapshot_in_place:
  "stubObjects
     (create [(''protocol'', JStr ''http'')] []
        (\<lambda>a. [(''responses'', JArr [JObj [(''proxy'', JObj [(''to'', JStr ''http://origin'')])],
                                       JObj [(''is'', JObj [(''body'', JStr ''ok''),
                                                             (''_proxyResponseTime'', JNum 12)])]]),
              (''matches'', JArr [JObj [(''timestamp'', JStr ''2026-01-01T00:00:00.000Z'')]])])) 0
     = [(''responses'', JArr [JObj [(''proxy'', JObj [(''to'', JStr ''http://origin'')])],
                              JObj [(''is'', JObj [(''body'', JStr ''ok''),
                                                    (''_proxyResponseTime'', JNum 12)])]]),
        (''matches'', JArr [JObj [(''timestamp'', JStr ''2026-01-01T00:00:00.000Z'')]])]
   \<and> stubObjects
       (snd (toJSON \<lparr>srv_port = JNum 4545, srv_metadata = []\<rparr>
               (Some (JObj [(''replayable'', JBool True), (''removeProxies'', JBool True)])) [0]
               (create [(''protocol'', JStr ''http'')] []
                  (\<lambda>a. [(''responses'', JArr [JObj [(''proxy'', JObj [(''to'', JStr ''http://origin'')])],
                                       JObj [(''is'', JObj [(''body'', JStr ''ok''),
                                                             (''_proxyResponseTime'', JNum 12)])]]),
              (''matches'', JArr [JObj [(''timestamp'', JStr ''2026-01-01T00:00:00.000Z'')]])])))) 0
     = [(''responses'', JArr [JObj [(''is'', JObj [(''body'', JStr ''ok'')])]])]"
  by (simp add: toJSON_def resultWithLinks_def addDetailsTo_def
        removeNonEssentialInformationFrom_def removeProxiesFrom_def withoutMatches_def
        withoutProxies_def hasResponses_def defined_def
        optionsOrEmpty_def truthy_opt_def optVal_def
        objectKeys_def create_def Let_def js_or_def)

subsection \<open>The base record and the list view\<close>

text \<open>
  C6, as amended. Whenever \<^verbatim>\<open>toJSON\<close> returns a record: with
  \<^verbatim>\<open>list\<close> truthy the record is exactly protocol, port, request counter and
  \<^verbatim>\<open>_links\<close>, so name, recording flag, metadata, recorded requests and stubs
  are absent; without \<^verbatim>\<open>list\<close> the record has \<^verbatim>\<open>protocol\<close> and
  \<^verbatim>\<open>port\<close> (the creation request's protocol and the server's port, or what
  the server's metadata holds under that name, which \<^verbatim>\<open>addDetailsTo\<close>
  copies over them), it has the request counter, under the same proviso, when
  \<^verbatim>\<open>replayable\<close> is falsy, and it has no \<^verbatim>\<open>numberOfRequests\<close> when
  \<^verbatim>\<open>replayable\<close> is truthy.
\<close>

theorem toJSON_base_record:
  "toJSON srv options snapshot s = (Inr r, s') \<longrightarrow>
     (truthy_opt (getProp (optionsOrEmpty options) ''list'') \<longrightarrow>
        r = [(''protocol'', optVal (getProp (creationRequest s) ''protocol'')),
             (''port'', Val (srv_port srv)),
             (''numberOfRequests'', Val (JNum (numberOfRequests s))),
             (''_links'', Val (JObj [(''self'',
                JObj [(''href'', JStr (''/imposters/'' @ js_string (srv_port srv)))])]))])
   \<and> (\<not> truthy_opt (getProp (optionsOrEmpty options) ''list'') \<longrightarrow>
        getProp r ''protocol'' =
          Some (case getProp (metadata s) ''protocol'' of
                  Some v \<Rightarrow> Val v
                | None \<Rightarrow> optVal (getProp (creationRequest s) ''protocol''))
        \<and> getProp r ''port'' =
          Some (case getProp (metadata s) ''port'' of
                  Some v \<Rightarrow> Val v
                | None \<Rightarrow> Val (srv_port srv))
        \<and> (\<not> truthy_opt (getProp (optionsOrEmpty options) ''replayable'') \<longrightarrow>
             getProp r ''numberOfRequests'' =
               Some (case getProp (metadata s) ''numberOfRequests'' of
                       Some v \<Rightarrow> Val v
                     | None \<Rightarrow> Val (JNum (numberOfRequests s))))
        \<and> (truthy_opt (getProp (optionsOrEmpty options) ''replayable'') \<longrightarrow>
             getProp r ''numberOfRequests'' = None))"
proof
  assume t: "toJSON srv options snapshot s = (Inr r, s')"
  let ?R = "resultWithLinks srv options snapshot s"
  have a: "truthy_opt (getProp (optionsOrEmpty options) ''list'') \<longrightarrow>
        r = [(''protocol'', optVal (getProp (creationRequest s) ''protocol'')),
             (''port'', Val (srv_port srv)),
             (''numberOfRequests'', Val (JNum (numberOfRequests s))),
             (''_links'', Val (JObj [(''self'',
                JObj [(''href'', JStr (''/imposters/'' @ js_string (srv_port srv)))])]))]"
    using toJSON_listed [OF t] by (simp add: getProp_listed)
  have p: "getProp r ''protocol'' = getProp ?R ''protocol''"
    and q: "getProp r ''port'' = getProp ?R ''port''"
    and n: "getProp r ''numberOfRequests'' =
              (if truthy_opt (getProp (optionsOrEmpty options) ''replayable'') then None
               else getProp ?R ''numberOfRequests'')"
    using toJSON_getProp [OF t] by simp_all
  have b: "\<not> truthy_opt (getProp (optionsOrEmpty options) ''list'') \<longrightarrow>
        getProp r ''protocol'' =
          Some (case getProp (metadata s) ''protocol'' of
                  Some v \<Rightarrow> Val v
                | None \<Rightarrow> optVal (getProp (creationRequest s) ''protocol''))
        \<and> getProp r ''port'' =
          Some (case getProp (metadata s) ''port'' of
                  Some v \<Rightarrow> Val v
                | None \<Rightarrow> Val (srv_port srv))
        \<and> (\<not> truthy_opt (getProp (optionsOrEmpty options) ''replayable'') \<longrightarrow>
             getProp r ''numberOfRequests'' =
               Some (case getProp (metadata s) ''numberOfRequests'' of
                       Some v \<Rightarrow> Val v
                     | None \<Rightarrow> Val (JNum (numberOfRequests s))))
        \<and> (truthy_opt (getProp (optionsOrEmpty options) ''replayable'') \<longrightarrow>
             getProp r ''numberOfRequests'' = None)"
    using p q n by (simp add: getProp_detailed split: option.splits)
  show "(truthy_opt (getProp (optionsOrEmpty options) ''list'') \<longrightarrow>
        r = [(''protocol'', optVal (getProp (creationRequest s) ''protocol'')),
             (''port'', Val (srv_port srv)),
             (''numberOfRequests'', Val (JNum (numberOfRequests s))),
             (''_links'', Val (JObj [(''self'',
                JObj [(''href'', JStr (''/imposters/'' @ js_string (srv_port srv)))])]))])
   \<and> (\<not> truthy_opt (getProp (optionsOrEmpty options) ''list'') \<longrightarrow>
        getProp r ''protocol'' =
          Some (case getProp (metadata s) ''protocol'' of
                  Some v \<Rightarrow> Val v
                | None \<Rightarrow> optVal (getProp (creationRequest s) ''protocol''))
        \<and> getProp r ''port'' =
          Some (case getProp (metadata s) ''port'' of
                  Some v \<Rightarrow> Val v
                | None \<Rightarrow> Val (srv_port srv))
        \<and> (\<not> truthy_opt (getProp (optionsOrEmpty options) ''replayable'') \<longrightarrow>
             getProp r ''numberOfRequests'' =
               Some (case getProp (metadata s) ''numberOfRequests'' of
                       Some v \<Rightarrow> Val v
                     | None \<Rightarrow> Val (JNum (numberOfRequests s))))
        \<and> (truthy_opt (getProp (optionsOrEmpty options) ''replayable'') \<longrightarrow>
             getProp r ''numberOfRequests'' = None))"
    using a b by blast
qed

theorem toJSON_base_record_witness:
  "toJSON \<lparr>srv_port = JNum 6000, srv_metadata = []\<rparr> (Some (JObj [(''list'', JBool True)])) [0]
     (create [(''protocol'', JStr ''tcp''), (''name'', JStr ''orders'')] []
        (\<lambda>a. [(''responses'', JArr [])]))
   = (Inr [(''protocol'', Val (JStr ''tcp'')), (''port'', Val (JNum 6000)),
           (''numberOfRequests'', Val (JNum 0)),
           (''_links'', Val (JObj [(''self'', JObj [(''href'', JStr ''/imposters/6000'')])]))],
      create [(''protocol'', JStr ''tcp''), (''name'', JStr ''orders'')] []
        (\<lambda>a. [(''responses'', JArr [])]))"
proof -
  let ?srv = "\<lparr>srv_port = JNum 6000, srv_metadata = []\<rparr>"
  let ?options = "Some (JObj [(''list'', JBool True)])"
  let ?s = "create [(''protocol'', JStr ''tcp''), (''name'', JStr ''orders'')] []
              (\<lambda>a. [(''responses'', JArr [])])"
  have l: "truthy_opt (getProp (optionsOrEmpty ?options) ''list'')"
    by (simp add: optionsOrEmpty_def truthy_opt_def)
  obtain r where r: "toJSON ?srv ?options [0] ?s = (Inr r, ?s)"
    by (simp add: toJSON_def optionsOrEmpty_def truthy_opt_def)
  have "r = [(''protocol'', optVal (getProp (creationRequest ?s) ''protocol'')),
             (''port'', Val (srv_port ?srv)),
             (''numberOfRequests'', Val (JNum (numberOfRequests ?s))),
             (''_links'', Val (JObj [(''self'',
                JObj [(''href'', JStr (''/imposters/'' @ js_string (srv_port ?srv)))])]))]"
    using toJSON_base_record [of ?srv ?options "[0]" ?s r ?s] r l by blast
  then show ?thesis using r
    by (simp add: create_def optVal_def string_of_int_def string_of_nat.simps)
qed

text \<open>
  The claim as stated fails at \<^verbatim>\<open>{replayable: true}\<close>: after one request,
  the record has no request counter.
\<close>

theorem replayable_record_has_no_counter:
  "fst (toJSON \<lparr>srv_port = JNum 6000, srv_metadata = []\<rparr>
          (Some (JObj [(''replayable'', JBool True)])) []
          (run (create [(''protocol'', JStr ''tcp''), (''port'', JNum 6000)] [] (\<lambda>a. []))
             [ServerReady \<lparr>srv_port = JNum 6000, srv_metadata = []\<rparr>,
              GetResponseFor [(''data'', JStr ''ping'')] ''2026-01-01T00:00:00.000Z''
                (Inr 0) []]))
   = Inr [(''protocol'', Val (JStr ''tcp'')), (''port'', Val (JNum 6000)),
          (''recordRequests'', Val (JBool False)), (''stubs'', StubRefs [])]"
  by (simp add: toJSON_def resultWithLinks_def addDetailsTo_def
        removeNonEssentialInformationFrom_def optionsOrEmpty_def truthy_opt_def optVal_def
        objectKeys_def run_def create_def serverReady_def getResponseFor_def Let_def
        js_or_def deferred_resolve_def)

subsection \<open>The replayable view\<close>















subsection \<open>The view without proxies\<close>










subsection \<open>The recording flag in the record\<close>

lemma step_creationRequest: "creationRequest (step s ev) = creationRequest s"
proof -
  have a: "\<And>c r t. creationRequest (snd (resolved c r t)) = creationRequest t"
    by (subst resolved_frame) simp
  have b: "\<And>r m t. creationRequest (snd (proxyResolved r m t)) = creationRequest t"
    by (subst proxyResolved_frame) simp
  have c: "\<And>srv options snapshot.
             creationRequest (snd (toJSON srv options snapshot s)) = creationRequest s"
    by (subst toJSON_frame) simp
  show ?thesis
    by (cases ev)
       (simp_all add: a b c settled_def serverReady_def getResponseFor_def
          getProxyResponseFor_def stop_def Let_def
          split: option.splits sum.splits pendingCall.splits json.splits)
qed

lemma run_creationRequest: "creationRequest (run s evs) = creationRequest s"
  unfolding run_def
  by (induction evs arbitrary: s) (simp_all add: step_creationRequest)

text \<open>
  C10. In the detail block (no \<^verbatim>\<open>list\<close>; the server's metadata has no
  property named \<^verbatim>\<open>recordRequests\<close>), \<^verbatim>\<open>recordRequests\<close> is
  \<^verbatim>\<open>Boolean (creationRequest.recordRequests)\<close>, whatever the global option is:
  with the global option truthy and the creation request's flag absent or falsy,
  the record says \<^verbatim>\<open>false\<close> while \<^verbatim>\<open>getResponseFor\<close> appends every
  request to the log.
\<close>

theorem recordRequests_field_ignores_global_flag:
  "toJSON srv options snapshot (run (create creq cfg objects) evs) = (Inr r, s')
   \<and> \<not> truthy_opt (getProp (optionsOrEmpty options) ''list'')
   \<and> getProp (metadata (run (create creq cfg objects) evs)) ''recordRequests'' = None \<longrightarrow>
     getProp r ''recordRequests'' = Some (Val (JBool (truthy_opt (getProp creq ''recordRequests''))))
   \<and> (truthy_opt (getProp cfg ''recordRequests'')
        \<and> \<not> truthy_opt (getProp creq ''recordRequests'') \<longrightarrow>
        getProp r ''recordRequests'' = Some (Val (JBool False))
        \<and> requests (snd (getResponseFor request now matched bag
                            (run (create creq cfg objects) evs))) =
            requests (run (create creq cfg objects) evs)
              @ [setProp (clone request) ''timestamp'' (JStr now)])"
proof
  let ?s = "run (create creq cfg objects) evs"
  assume h: "toJSON srv options snapshot ?s = (Inr r, s')
   \<and> \<not> truthy_opt (getProp (optionsOrEmpty options) ''list'')
   \<and> getProp (metadata ?s) ''recordRequests'' = None"
  then have t: "toJSON srv options snapshot ?s = (Inr r, s')"
    and nl: "\<not> truthy_opt (getProp (optionsOrEmpty options) ''list'')"
    and m: "getProp (metadata ?s) ''recordRequests'' = None"
    by simp_all
  have cr: "creationRequest ?s = creq"
    by (simp add: run_creationRequest create_def)
  have "getProp r ''recordRequests'' =
          getProp (resultWithLinks srv options snapshot ?s) ''recordRequests''"
    using toJSON_getProp [OF t, of "''recordRequests''"] by simp
  then have a: "getProp r ''recordRequests'' =
      Some (Val (JBool (truthy_opt (getProp creq ''recordRequests''))))"
    using nl m cr by (simp add: getProp_detailed)
  have on: "truthy_opt (recordRequests ?s) =
      (truthy_opt (getProp cfg ''recordRequests'') \<or> truthy_opt (getProp creq ''recordRequests''))"
    by (simp add: run_recordRequests create_recording)
  have b: "truthy_opt (getProp cfg ''recordRequests'')
        \<and> \<not> truthy_opt (getProp creq ''recordRequests'') \<longrightarrow>
        getProp r ''recordRequests'' = Some (Val (JBool False))
        \<and> requests (snd (getResponseFor request now matched bag ?s)) =
            requests ?s @ [setProp (clone request) ''timestamp'' (JStr now)]"
    using a on by (simp add: getResponseFor_requests)
  show "getProp r ''recordRequests'' = Some (Val (JBool (truthy_opt (getProp creq ''recordRequests''))))
   \<and> (truthy_opt (getProp cfg ''recordRequests'')
        \<and> \<not> truthy_opt (getProp creq ''recordRequests'') \<longrightarrow>
        getProp r ''recordRequests'' = Some (Val (JBool False))
        \<and> requests (snd (getResponseFor request now matched bag ?s)) =
            requests ?s @ [setProp (clone request) ''timestamp'' (JStr now)])"
    using a b by blast
qed

theorem recordRequests_field_ignores_global_flag_witness:
  "getProp
     (metadata (run (create [(''protocol'', JStr ''tcp'')] [(''recordRequests'', JBool True)]
                       (\<lambda>a. []))
                  [ServerReady \<lparr>srv_port = JNum 6000, srv_metadata = [(''mode'', JStr ''text'')]\<rparr>]))
     ''recordRequests'' = None
   \<and> fst (toJSON \<lparr>srv_port = JNum 6000, srv_metadata = [(''mode'', JStr ''text'')]\<rparr> None []
            (run (create [(''protocol'', JStr ''tcp'')] [(''recordRequests'', JBool True)]
                    (\<lambda>a. []))
               [ServerReady \<lparr>srv_port = JNum 6000, srv_metadata = [(''mode'', JStr ''text'')]\<rparr>]))
     = Inr [(''protocol'', Val (JStr ''tcp'')), (''port'', Val (JNum 6000)),
            (''numberOfRequests'', Val (JNum 0)), (''recordRequests'', Val (JBool False)),
            (''mode'', Val (JStr ''text'')), (''requests'', RequestsRef),
            (''stubs'', StubRefs []),
            (''_links'', Val (JObj [(''self'', JObj [(''href'', JStr ''/imposters/6000'')])]))]
   \<and> requests
        (snd (getResponseFor [(''data'', JStr ''ping'')] ''2026-01-01T00:00:00.000Z'' (Inr 0) []
               (run (create [(''protocol'', JStr ''tcp'')] [(''recordRequests'', JBool True)]
                       (\<lambda>a. []))
                  [ServerReady \<lparr>srv_port = JNum 6000,
                                srv_metadata = [(''mode'', JStr ''text'')]\<rparr>])))
     = [[(''data'', JStr ''ping''), (''timestamp'', JStr ''2026-01-01T00:00:00.000Z'')]]"
proof -
  let ?srv = "\<lparr>srv_port = JNum 6000, srv_metadata = [(''mode'', JStr ''text'')]\<rparr>"
  let ?creq = "[(''protocol'', JStr ''tcp'')]"
  let ?cfg = "[(''recordRequests'', JBool True)]"
  let ?s = "run (create ?creq ?cfg (\<lambda>a. [])) [ServerReady ?srv]"
  let ?r = "[(''protocol'', Val (JStr ''tcp'')), (''port'', Val (JNum 6000)),
            (''numberOfRequests'', Val (JNum 0)), (''recordRequests'', Val (JBool False)),
            (''mode'', Val (JStr ''text'')), (''requests'', RequestsRef),
            (''stubs'', StubRefs []),
            (''_links'', Val (JObj [(''self'', JObj [(''href'', JStr ''/imposters/6000'')])]))]"
  have s: "metadata ?s = [(''mode'', JStr ''text'')] \<and> requests ?s = []
           \<and> creationRequest ?s = ?creq \<and> numberOfRequests ?s = 0"
    by (simp add: run_def create_def serverReady_def Let_def deferred_resolve_def)
  have m: "getProp (metadata ?s) ''recordRequests'' = None" using s by simp
  have f: "fst (toJSON ?srv None [] ?s) = Inr ?r"
    using s
    by (simp add: toJSON_def resultWithLinks_def addDetailsTo_def
          optionsOrEmpty_def truthy_opt_def optVal_def objectKeys_def Let_def
          string_of_int_def string_of_nat.simps)
  then have t: "toJSON ?srv None [] ?s = (Inr ?r, snd (toJSON ?srv None [] ?s))"
    by (metis prod.collapse)
  have nl: "\<not> truthy_opt (getProp (optionsOrEmpty None) ''list'')"
    by (simp add: optionsOrEmpty_def truthy_opt_def)
  have flags: "truthy_opt (getProp ?cfg ''recordRequests'')
               \<and> \<not> truthy_opt (getProp ?creq ''recordRequests'')"
    by (simp add: truthy_opt_def)
  have "requests (snd (getResponseFor [(''data'', JStr ''ping'')] ''2026-01-01T00:00:00.000Z''
                        (Inr 0) [] ?s)) =
          requests ?s @ [setProp (clone [(''data'', JStr ''ping'')]) ''timestamp''
                           (JStr ''2026-01-01T00:00:00.000Z'')]"
    using recordRequests_field_ignores_global_flag
            [of ?srv None "[]" ?creq ?cfg "\<lambda>a. []" "[ServerReady ?srv]" ?r
                 "snd (toJSON ?srv None [] ?s)" "[(''data'', JStr ''ping'')]"
                 "''2026-01-01T00:00:00.000Z''" "Inr 0" "[]"] t nl m flags
    by blast
  then show ?thesis using s f m by (simp add: clone_def)
qed

end
